theory Spec2Isabelle
  imports Complex_Main "HOL-Library.Sublist"
begin

section \<open>The offline cache service worker of the Leeward Point guide\<close>

text \<open>
  The development embeds the current version of \<^verbatim>\<open>service-worker.js\<close> (the last of the
  versions kept in the source file, cache name \<^verbatim>\<open>leeward-point-cache-v11\<close>): the tile
  coordinate mapper, the tile URL generator and the handlers of the three lifecycle
  events.
\<close>

subsection \<open>JavaScript numbers\<close>

text \<open>
  JavaScript numbers are IEEE 754 doubles. The finite doubles are the reals
  \<open>m * 2 ^ e\<close> with \<open>\<bar>m\<bar> < 2 ^ 53\<close> and \<open>- 1074 \<le> e\<close> below \<open>2 ^ 1024\<close> in magnitude. An
  arithmetic operation returns the double nearest to its exact result, the one with the
  even significand when two are equally near. \<open>rnd\<close> is this rounding without the bound
  on the magnitude: \<open>ulp x\<close> is the distance between the doubles around \<open>x\<close>, with the
  subnormal numbers below \<open>2 ^ - 1022\<close>, and \<open>rnd x\<close> is the multiple of \<open>ulp x\<close> nearest
  to \<open>x\<close>.
\<close>

definition round_even :: "real \<Rightarrow> int" where
  "round_even r =
     (let f = \<lfloor>r\<rfloor>
      in if r - of_int f < 1 / 2 then f
         else if 1 / 2 < r - of_int f then f + 1
         else if even f then f else f + 1)"

definition binade :: "real \<Rightarrow> int" where
  "binade x = (if x = 0 then - 1022 else max \<lfloor>log 2 \<bar>x\<bar>\<rfloor> (- 1022))"

definition ulp :: "real \<Rightarrow> real" where
  "ulp x = 2 powr of_int (binade x - 52)"

definition rnd :: "real \<Rightarrow> real" where
  "rnd x = ulp x * of_int (round_even (x / ulp x))"

text \<open>
  A number is \<open>NaN\<close>, an infinity or a finite number. \<open>fl\<close> rounds an exact result; a
  result that rounds to \<open>2 ^ 1024\<close> or beyond is an infinity. The operations follow the
  language definition of \<^verbatim>\<open>+\<close>, \<^verbatim>\<open>-\<close>, \<^verbatim>\<open>*\<close>, \<^verbatim>\<open>/\<close>, \<^verbatim>\<open><=\<close>, \<^verbatim>\<open>Math.floor\<close>, \<^verbatim>\<open>Math.min\<close>
  and \<^verbatim>\<open>Math.max\<close>. Zero carries no sign here: a non-zero number divided by zero is the
  infinity of its own sign. \<open>Fin\<close> takes any real; the numbers of a run are doubles, which
  the operations produce.

  \<^verbatim>\<open>Math.PI\<close> is the double nearest to \<open>pi\<close>, and \<^verbatim>\<open>Math.pow(2, zoom)\<close> for a natural number
  \<open>zoom\<close> is the power of two itself, a double up to \<open>2 ^ 1023\<close>, and infinite beyond.
\<close>

datatype num = NaN | NegInf | Fin real | PosInf

definition OVERFLOW :: real where
  "OVERFLOW = 2 ^ 1024"

definition fl :: "real \<Rightarrow> num" where
  "fl x =
     (if OVERFLOW \<le> rnd x then PosInf
      else if rnd x \<le> - OVERFLOW then NegInf
      else Fin (rnd x))"

fun num_neg :: "num \<Rightarrow> num" where
  "num_neg (Fin a) = Fin (- a)"
| "num_neg PosInf = NegInf"
| "num_neg NegInf = PosInf"
| "num_neg NaN = NaN"

fun num_add :: "num \<Rightarrow> num \<Rightarrow> num" where
  "num_add (Fin a) (Fin b) = fl (a + b)"
| "num_add NaN b = NaN"
| "num_add a NaN = NaN"
| "num_add PosInf NegInf = NaN"
| "num_add NegInf PosInf = NaN"
| "num_add PosInf b = PosInf"
| "num_add a PosInf = PosInf"
| "num_add NegInf b = NegInf"
| "num_add a NegInf = NegInf"

definition num_sub :: "num \<Rightarrow> num \<Rightarrow> num" where
  "num_sub a b = num_add a (num_neg b)"

fun num_mul :: "num \<Rightarrow> num \<Rightarrow> num" where
  "num_mul (Fin a) (Fin b) = fl (a * b)"
| "num_mul NaN b = NaN"
| "num_mul a NaN = NaN"
| "num_mul (Fin a) b = (if a = 0 then NaN else if 0 < a then b else num_neg b)"
| "num_mul a (Fin b) = (if b = 0 then NaN else if 0 < b then a else num_neg a)"
| "num_mul a b = (if a = b then PosInf else NegInf)"

fun num_div :: "num \<Rightarrow> num \<Rightarrow> num" where
  "num_div (Fin a) (Fin b) =
     (if b = 0 then (if a = 0 then NaN else if 0 < a then PosInf else NegInf)
      else fl (a / b))"
| "num_div NaN b = NaN"
| "num_div a NaN = NaN"
| "num_div (Fin a) b = Fin 0"
| "num_div a (Fin b) = (if 0 \<le> b then a else num_neg a)"
| "num_div a b = NaN"

fun num_le :: "num \<Rightarrow> num \<Rightarrow> bool" where
  "num_le (Fin a) (Fin b) = (a \<le> b)"
| "num_le NaN b = False"
| "num_le a NaN = False"
| "num_le NegInf b = True"
| "num_le a PosInf = True"
| "num_le a b = False"

fun Math_floor :: "num \<Rightarrow> num" where
  "Math_floor (Fin a) = Fin (of_int \<lfloor>a\<rfloor>)"
| "Math_floor a = a"

definition Math_min :: "num \<Rightarrow> num \<Rightarrow> num" where
  "Math_min a b = (if a = NaN \<or> b = NaN then NaN else if num_le a b then a else b)"

definition Math_max :: "num \<Rightarrow> num \<Rightarrow> num" where
  "Math_max a b = (if a = NaN \<or> b = NaN then NaN else if num_le a b then b else a)"

definition Math_PI :: num where
  "Math_PI = Fin (884279719003555 / 281474976710656)"

definition Math_pow2 :: "nat \<Rightarrow> num" where
  "Math_pow2 zoom = (if zoom < 1024 then Fin (2 ^ zoom) else PosInf)"

text \<open>
  The language leaves the values of \<^verbatim>\<open>Math.tan\<close>, \<^verbatim>\<open>Math.cos\<close> and \<^verbatim>\<open>Math.log\<close> to the
  engine, as approximations of the mathematical functions. The model takes the three
  functions as a parameter. The engine whose functions are correctly rounded serves for
  concrete runs.
\<close>

record math =
  Math_tan :: "num \<Rightarrow> num"
  Math_cos :: "num \<Rightarrow> num"
  Math_log :: "num \<Rightarrow> num"





subsection \<open>Tile coordinate mapper\<close>

definition latLonToTile :: "math \<Rightarrow> num \<Rightarrow> num \<Rightarrow> nat \<Rightarrow> num \<times> num" where
  "latLonToTile m lat lon zoom =
     (let latRad = num_div (num_mul lat Math_PI) (Fin 180);
          n = Math_pow2 zoom;
          x = Math_floor (num_mul (num_div (num_add lon (Fin 180)) (Fin 360)) n);
          y = Math_floor (num_mul (num_div (num_sub (Fin 1)
                (num_div (Math_log m (num_add (Math_tan m latRad)
                   (num_div (Fin 1) (Math_cos m latRad)))) Math_PI)) (Fin 2)) n)
      in (x, y))"

text \<open>
  The part of the row computation that depends on the latitude and on the engine: the
  Mercator ordinate divided by \<^verbatim>\<open>Math.PI\<close>, as \<open>latLonToTile\<close> computes it.
\<close>

definition mercator_fraction :: "math \<Rightarrow> num \<Rightarrow> num" where
  "mercator_fraction m lat =
     (let latRad = num_div (num_mul lat Math_PI) (Fin 180)
      in num_div (Math_log m (num_add (Math_tan m latRad) (num_div (Fin 1) (Math_cos m latRad))))
           Math_PI)"



subsection \<open>Tile URL generation\<close>

text \<open>
  A bounding region has four numbers and a list of zoom levels, which are natural
  numbers. The template literal of the tile URL prints the zoom level and the two loop
  counters. A counter is an integer, an infinity or \<open>NaN\<close>; \<open>show_nat\<close> and \<open>show_num\<close>
  print the decimal digits of an integer, which is what the language prints for the
  integers below \<open>10 ^ 21\<close> in magnitude.

  The loops count in numbers: \<^verbatim>\<open>x++\<close> and \<^verbatim>\<open>y++\<close> add one and round. A loop whose counter
  stops growing below its bound runs for ever, so the loops are partial functions, with
  \<open>None\<close> for a run that does not return; \<open>generateTileUrls\<close> returns when the loops of
  every zoom level do.
\<close>

record BoundingRegion =
  latMin :: num
  latMax :: num
  lonMin :: num
  lonMax :: num
  zoomLevels :: "nat list"

definition digit_char :: "nat \<Rightarrow> char" where
  "digit_char d = ''0123456789'' ! d"

function show_nat :: "nat \<Rightarrow> string" where
  "show_nat n = (if n < 10 then [digit_char n] else show_nat (n div 10) @ [digit_char (n mod 10)])"
  by pat_completeness auto

termination
  by (relation "measure (\<lambda>n. n)") auto

declare show_nat.simps [simp del]

definition show_int :: "int \<Rightarrow> string" where
  "show_int i = (if i < 0 then CHR ''-'' # show_nat (nat (- i)) else show_nat (nat i))"

fun show_num :: "num \<Rightarrow> string" where
  "show_num (Fin a) = show_int \<lfloor>a\<rfloor>"
| "show_num PosInf = ''Infinity''"
| "show_num NegInf = ''-Infinity''"
| "show_num NaN = ''NaN''"

definition subdomains :: "string list" where
  "subdomains = [''a'', ''b'', ''c'']"

definition tile_url :: "string \<Rightarrow> nat \<Rightarrow> num \<Rightarrow> num \<Rightarrow> string" where
  "tile_url sub zoom x y =
     ''https://'' @ sub @ ''.tile.openstreetmap.org/'' @ show_nat zoom @ ''/'' @ show_num x
       @ ''/'' @ show_num y @ ''.png''"

partial_function (option) y_loop ::
  "nat \<Rightarrow> num \<Rightarrow> num \<Rightarrow> num \<Rightarrow> string list \<Rightarrow> string list option" where
  "y_loop zoom x y yMax urls =
     (if num_le y yMax
      then y_loop zoom x (num_add y (Fin 1)) yMax
             (urls @ map (\<lambda>sub. tile_url sub zoom x y) subdomains)
      else Some urls)"

partial_function (option) x_loop ::
  "nat \<Rightarrow> num \<Rightarrow> num \<Rightarrow> num \<Rightarrow> num \<Rightarrow> string list \<Rightarrow> string list option" where
  "x_loop zoom x xMax yMin yMax urls =
     (if num_le x xMax
      then Option.bind (y_loop zoom x yMin yMax urls)
             (\<lambda>urls'. x_loop zoom (num_add x (Fin 1)) xMax yMin yMax urls')
      else Some urls)"

definition zoom_step :: "math \<Rightarrow> BoundingRegion \<Rightarrow> nat \<Rightarrow> string list \<Rightarrow> string list option" where
  "zoom_step m bounds zoom urls =
     (let (xMinCandidate, yMaxCandidate) = latLonToTile m (latMin bounds) (lonMin bounds) zoom;
          (xMaxCandidate, yMinCandidate) = latLonToTile m (latMax bounds) (lonMax bounds) zoom;
          xMin = Math_min xMinCandidate xMaxCandidate;
          xMax = Math_max xMinCandidate xMaxCandidate;
          yMin = Math_min yMinCandidate yMaxCandidate;
          yMax = Math_max yMinCandidate yMaxCandidate
      in x_loop zoom xMin xMax yMin yMax urls)"

fun for_each :: "('a \<Rightarrow> 's \<Rightarrow> 's option) \<Rightarrow> 'a list \<Rightarrow> 's \<Rightarrow> 's option" where
  "for_each f [] s = Some s"
| "for_each f (a # as) s = Option.bind (f a s) (for_each f as)"

definition generateTileUrls :: "math \<Rightarrow> BoundingRegion \<Rightarrow> string list option" where
  "generateTileUrls m bounds = for_each (zoom_step m bounds) (zoomLevels bounds) []"

text \<open>
  The coverage of a region as the specification describes it: per zoom level, the tiles
  of the two corners, the element-wise minimum and maximum of their components, and every
  pair of the inclusive rectangle. It is defined when the components of the two tiles
  are integers of magnitude below \<open>2 ^ 53\<close>, the integers that a counter steps through
  one by one.
\<close>

definition safe_index :: "num \<Rightarrow> int option" where
  "safe_index v =
     (case v of
        Fin r \<Rightarrow> if r = of_int \<lfloor>r\<rfloor> \<and> \<bar>r\<bar> < 2 ^ 53 then Some \<lfloor>r\<rfloor> else None
      | _ \<Rightarrow> None)"

definition tile_range ::
  "math \<Rightarrow> BoundingRegion \<Rightarrow> nat \<Rightarrow> ((int \<times> int) \<times> (int \<times> int)) option" where
  "tile_range m region zoom =
     (let lower = latLonToTile m (latMin region) (lonMin region) zoom;
          upper = latLonToTile m (latMax region) (lonMax region) zoom
      in Option.bind (safe_index (fst lower)) (\<lambda>xLower.
         Option.bind (safe_index (snd lower)) (\<lambda>yLower.
         Option.bind (safe_index (fst upper)) (\<lambda>xUpper.
         Option.bind (safe_index (snd upper)) (\<lambda>yUpper.
           Some ((min xLower xUpper, max xLower xUpper),
                 (min yUpper yLower, max yUpper yLower)))))))"

definition rectangle :: "nat \<Rightarrow> (int \<times> int) \<times> (int \<times> int) \<Rightarrow> (nat \<times> int \<times> int) list" where
  "rectangle zoom r =
     (case r of ((xMin, xMax), (yMin, yMax)) \<Rightarrow>
        concat (map (\<lambda>x. map (\<lambda>y. (zoom, x, y)) [yMin..yMax]) [xMin..xMax]))"

definition coverage_at :: "math \<Rightarrow> BoundingRegion \<Rightarrow> nat \<Rightarrow> (nat \<times> int \<times> int) list option" where
  "coverage_at m region zoom = map_option (rectangle zoom) (tile_range m region zoom)"

definition coverage :: "math \<Rightarrow> BoundingRegion \<Rightarrow> (nat \<times> int \<times> int) list option" where
  "coverage m region = map_option concat (those (map (coverage_at m region) (zoomLevels region)))"


subsection \<open>Responses, cache storage and the network\<close>

text \<open>
  A request is given by its URL (the requests are \<^verbatim>\<open>GET\<close> requests, and a relative URL
  stands for the absolute URL it resolves to). A response carries its status, its content
  type and the bytes of its body; responses carry no \<^verbatim>\<open>Vary\<close> header. A cache lists its
  entries in insertion order, and the cache storage of the origin lists the named caches
  in creation order.
\<close>

record response =
  status :: nat
  content_type :: string
  body :: "nat list"

type_synonym cache = "(string \<times> response) list"

type_synonym cache_storage = "(string \<times> cache) list"

text \<open>
  The state the handlers act on: the cache storage, and the list of the URLs fetched from
  the network so far. The network maps a URL to the response the fetch resolves to, or to
  \<open>None\<close> when the fetch rejects.
\<close>

record world =
  caches :: cache_storage
  fetched :: "string list"

type_synonym network = "string \<Rightarrow> response option"

datatype failure = NetworkError | BadStatus | InvalidState | InvalidCharacter

text \<open>
  The Cache API compares the URLs of two requests without their fragments: a stored
  request matches a request when the URLs agree up to the first \<^verbatim>\<open>#\<close>. \<^verbatim>\<open>cache.match\<close>
  answers with the first entry that matches, and \<^verbatim>\<open>cache.put\<close> replaces the entries that
  match by the new entry.
\<close>

definition request_key :: "string \<Rightarrow> string" where
  "request_key url = takeWhile (\<lambda>c. c \<noteq> CHR ''#'') url"

definition request_keys :: "cache \<Rightarrow> string list" where
  "request_keys c = map (\<lambda>e. request_key (fst e)) c"

definition cache_match :: "cache \<Rightarrow> string \<Rightarrow> response option" where
  "cache_match c url = map_of (map (\<lambda>e. (request_key (fst e), snd e)) c) (request_key url)"

definition cache_put :: "string \<Rightarrow> response \<Rightarrow> cache \<Rightarrow> cache" where
  "cache_put url r c = filter (\<lambda>e. request_key (fst e) \<noteq> request_key url) c @ [(url, r)]"

definition caches_keys :: "cache_storage \<Rightarrow> string list" where
  "caches_keys cs = map fst cs"

definition caches_open :: "string \<Rightarrow> cache_storage \<Rightarrow> cache_storage" where
  "caches_open name cs = (if name \<in> set (caches_keys cs) then cs else cs @ [(name, [])])"

definition caches_delete :: "string \<Rightarrow> cache_storage \<Rightarrow> cache_storage" where
  "caches_delete name cs = filter (\<lambda>e. fst e \<noteq> name) cs"

definition entries :: "string \<Rightarrow> cache_storage \<Rightarrow> cache" where
  "entries name cs = (case map_of cs name of None \<Rightarrow> [] | Some c \<Rightarrow> c)"

definition set_entries :: "string \<Rightarrow> cache \<Rightarrow> cache_storage \<Rightarrow> cache_storage" where
  "set_entries name c cs = map (\<lambda>e. if fst e = name then (name, c) else e) cs"

fun caches_match :: "cache_storage \<Rightarrow> string \<Rightarrow> response option" where
  "caches_match [] url = None"
| "caches_match (e # cs) url =
     (case cache_match (snd e) url of Some r \<Rightarrow> Some r | None \<Rightarrow> caches_match cs url)"

definition fetch :: "network \<Rightarrow> string \<Rightarrow> world \<Rightarrow> response option \<times> world" where
  "fetch net url w = (net url, w\<lparr>fetched := fetched w @ [url]\<rparr>)"

text \<open>
  \<^verbatim>\<open>cache.add\<close> and \<^verbatim>\<open>cache.addAll\<close> fetch and store. They reject when a fetch rejects
  and when a response does not have a status from 200 to 299 or has status 206;
  \<^verbatim>\<open>addAll\<close> also rejects a list in which two requests match each other, and stores
  nothing unless every response can be stored.
\<close>

definition addable :: "response \<Rightarrow> bool" where
  "addable r = (200 \<le> status r \<and> status r \<le> 299 \<and> status r \<noteq> 206)"

definition fetch_addable :: "network \<Rightarrow> string \<Rightarrow> bool" where
  "fetch_addable net url = (case net url of None \<Rightarrow> False | Some r \<Rightarrow> addable r)"

definition cache_add :: "network \<Rightarrow> string \<Rightarrow> string \<Rightarrow> world \<Rightarrow> (failure + unit) \<times> world" where
  "cache_add net name url w =
     (let (resp, w1) = fetch net url w
      in case resp of
           None \<Rightarrow> (Inl NetworkError, w1)
         | Some r \<Rightarrow>
             if addable r
             then (Inr (),
                   w1\<lparr>caches := set_entries name (cache_put url r (entries name (caches w1)))
                                   (caches w1)\<rparr>)
             else (Inl BadStatus, w1))"

definition put_fetched :: "network \<Rightarrow> string \<Rightarrow> cache \<Rightarrow> cache" where
  "put_fetched net url c = (case net url of None \<Rightarrow> c | Some r \<Rightarrow> cache_put url r c)"

definition cache_addAll ::
  "network \<Rightarrow> string \<Rightarrow> string list \<Rightarrow> world \<Rightarrow> (failure + unit) \<times> world" where
  "cache_addAll net name urls w =
     (let w1 = w\<lparr>fetched := fetched w @ urls\<rparr>
      in if \<not> list_all (\<lambda>url. net url \<noteq> None) urls then (Inl NetworkError, w1)
         else if \<not> list_all (fetch_addable net) urls then (Inl BadStatus, w1)
         else if \<not> distinct (map request_key urls) then (Inl InvalidState, w1)
         else (Inr (),
               w1\<lparr>caches := set_entries name
                                (fold (put_fetched net) urls (entries name (caches w1)))
                                (caches w1)\<rparr>))"

subsection \<open>The fallback image\<close>

text \<open>
  \<^verbatim>\<open>atob\<close> decodes base64 to a binary string, one code unit below 256 per decoded byte,
  and throws on input that is not base64. A \<^verbatim>\<open>Blob\<close> built from a string holds the UTF-8
  encoding of the string. Code units are numbers here, and so are bytes; strings with
  surrogate pairs do not occur.
\<close>

definition base64_alphabet :: string where
  "base64_alphabet = ''ABCDEFGHIJKLMNOPQRSTUVWXYZabcdefghijklmnopqrstuvwxyz0123456789+/''"

fun index_from :: "nat \<Rightarrow> char \<Rightarrow> string \<Rightarrow> nat option" where
  "index_from i c [] = None"
| "index_from i c (d # ds) = (if c = d then Some i else index_from (i + 1) c ds)"

definition base64_value :: "char \<Rightarrow> nat option" where
  "base64_value c = index_from 0 c base64_alphabet"

definition ascii_whitespace :: "char \<Rightarrow> bool" where
  "ascii_whitespace c = (c \<in> set [CHR 0x09, CHR 0x0A, CHR 0x0C, CHR 0x0D, CHR '' ''])"

definition strip_padding :: "string \<Rightarrow> string" where
  "strip_padding s =
     (if length s mod 4 = 0
      then (if s \<noteq> [] \<and> last s = CHR ''=''
            then (if butlast s \<noteq> [] \<and> last (butlast s) = CHR ''=''
                  then butlast (butlast s) else butlast s)
            else s)
      else s)"

fun decode_sextets :: "nat list \<Rightarrow> nat list" where
  "decode_sextets (a # b # c # d # rest) =
     (let n = ((a * 64 + b) * 64 + c) * 64 + d
      in n div 65536 # n div 256 mod 256 # n mod 256 # decode_sextets rest)"
| "decode_sextets [a, b, c] = (let n = (a * 64 + b) * 64 + c in [n div 1024, n div 4 mod 256])"
| "decode_sextets [a, b] = [(a * 64 + b) div 16]"
| "decode_sextets rest = []"

definition atob :: "string \<Rightarrow> nat list option" where
  "atob s =
     (let d = strip_padding (filter (\<lambda>c. \<not> ascii_whitespace c) s)
      in if length d mod 4 = 1 then None
         else map_option decode_sextets (those (map base64_value d)))"

definition utf8_encode_unit :: "nat \<Rightarrow> nat list" where
  "utf8_encode_unit c =
     (if c < 128 then [c]
      else if c < 2048 then [192 + c div 64, 128 + c mod 64]
      else [224 + c div 4096, 128 + c div 64 mod 64, 128 + c mod 64])"

definition blob_of_string :: "nat list \<Rightarrow> nat list" where
  "blob_of_string s = concat (map utf8_encode_unit s)"

definition FALLBACK_BASE64 :: string where
  "FALLBACK_BASE64 =
     ''iVBORw0KGgoAAAANSUhEUgAAABAAAAAQCAYAAAAf8/9hAAAAMUlEQVR42mNgGAWjgH5gYmBI4T8GIhUyoCUjqYYGxBmUBkRsTAlgFQcAzi0AUAFhCNAODLZnAAAAAElFTkSuQmCC''"

text \<open>
  The response the handler builds in its \<^verbatim>\<open>catch\<close> block: a \<^verbatim>\<open>Response\<close> with the
  default status 200 whose body is a \<^verbatim>\<open>Blob\<close> of type \<^verbatim>\<open>image/png\<close> made from the string
  that \<^verbatim>\<open>atob\<close> returns.
\<close>

definition fallback_response :: "failure + response" where
  "fallback_response =
     (case atob FALLBACK_BASE64 of
        None \<Rightarrow> Inl InvalidCharacter
      | Some s \<Rightarrow> Inr \<lparr>status = 200, content_type = ''image/png'', body = blob_of_string s\<rparr>)"

subsection \<open>The lifecycle handlers\<close>

definition CACHE_NAME :: string where
  "CACHE_NAME = ''leeward-point-cache-v11''"

definition PRECACHE_URLS :: "string list" where
  "PRECACHE_URLS =
     [''/'',
      ''/index.html'',
      ''/info.html'',
      ''/subcategory.html'',
      ''/search.html'',
      ''/map.html'',
      ''/admin.html'',
      ''/style.css'',
      ''/script.js'',
      ''/data.json'',
      ''/manifest.json'',
      ''/icon-192.png'',
      ''/icon-512.png'',
      ''/hero.png'',
      ''/hero-button.png'',
      ''/house-tour.html'',
      ''/howto.html'',
      ''/howto-item.html'',
      ''/topic.html'',
      ''/images/_incoming/0A740C08-D444-4C26-AC52-D4C65B1C6377.png'',
      ''/images/_incoming/0E8D1C7E-E189-4134-A62C-54BEAC462290.png'',
      ''/images/_incoming/0EA16F1C-6C3E-4E2A-80A9-3AB6CAE0186D.jpeg'',
      ''/images/_incoming/0EE26473-943E-4CA7-922F-7804FBF1A4E5.jpeg'',
      ''/images/_incoming/0F831DD5-FF18-4C1B-AF79-6870C1FBF2D.jpeg'',
      ''/images/_incoming/1A023195-03C2-45C2-8BC3-EE9A360D5381.jpeg'',
      ''/images/local_area/restaurant.png'',
      ''/images/local_area/cafe.png'',
      ''/images/local_area/bar_brewery.png'',
      ''/images/local_area/trail.png'',
      ''/images/local_area/beach.png'']"

text \<open>
  The bounds of the tiles to prefetch. A decimal literal denotes the double nearest to it.
\<close>

definition OFFLINE_TILE_BOUNDS :: BoundingRegion where
  "OFFLINE_TILE_BOUNDS =
     \<lparr>latMin = fl (2918 / 100), latMax = fl (3148 / 100),
      lonMin = fl (- 8298 / 100), lonMax = fl (- 8032 / 100),
      zoomLevels = [12]\<rparr>"

text \<open>
  The install handler, for a list of static assets and a list of tile URLs: it opens the
  current cache, adds the static assets with \<^verbatim>\<open>addAll\<close>, whose rejection rejects the
  installation, and then adds every tile URL with its rejection caught and dropped. The
  tile requests, which \<^verbatim>\<open>Promise.all\<close> awaits together, are taken one after the other;
  every fetch settles, with a response or a rejection.
\<close>

definition add_tile :: "network \<Rightarrow> string \<Rightarrow> world \<Rightarrow> world" where
  "add_tile net url w = snd (cache_add net CACHE_NAME url w)"

definition install_handler ::
  "network \<Rightarrow> string list \<Rightarrow> string list \<Rightarrow> world \<Rightarrow> (failure + unit) \<times> world" where
  "install_handler net static tileUrls w =
     (let w1 = w\<lparr>caches := caches_open CACHE_NAME (caches w)\<rparr>;
          (added, w2) = cache_addAll net CACHE_NAME static w1
      in case added of
           Inl e \<Rightarrow> (Inl e, w2)
         | Inr u \<Rightarrow> (Inr (), fold (add_tile net) tileUrls w2))"

text \<open>
  The handler as the worker registers it: the static assets are \<open>PRECACHE_URLS\<close>, and
  the tile URLs are generated, after the static assets were stored, from
  \<open>OFFLINE_TILE_BOUNDS\<close>. The result is \<open>None\<close> when the generation of the tile URLs
  does not return.
\<close>

definition install :: "math \<Rightarrow> network \<Rightarrow> world \<Rightarrow> ((failure + unit) \<times> world) option" where
  "install m net w =
     (let w1 = w\<lparr>caches := caches_open CACHE_NAME (caches w)\<rparr>;
          (added, w2) = cache_addAll net CACHE_NAME PRECACHE_URLS w1
      in case added of
           Inl e \<Rightarrow> Some (Inl e, w2)
         | Inr u \<Rightarrow>
             (case generateTileUrls m OFFLINE_TILE_BOUNDS of
                None \<Rightarrow> None
              | Some tileUrls \<Rightarrow> Some (Inr (), fold (add_tile net) tileUrls w2)))"

definition delete_stale :: "string \<Rightarrow> cache_storage \<Rightarrow> cache_storage" where
  "delete_stale key cs = (if key \<noteq> CACHE_NAME then caches_delete key cs else cs)"

definition activate :: "world \<Rightarrow> world" where
  "activate w = w\<lparr>caches := fold delete_stale (caches_keys (caches w)) (caches w)\<rparr>"

subsection \<open>The fetch handler\<close>

text \<open>
  The two branches of the fetch handler: the body of its \<^verbatim>\<open>if\<close> statement, for tile
  requests, and the statements after it. The tile branch does not await \<^verbatim>\<open>cache.put\<close>;
  its write is taken to be done when the handler returns.
\<close>

definition tile_branch :: "network \<Rightarrow> string \<Rightarrow> world \<Rightarrow> (failure + response) \<times> world" where
  "tile_branch net url w =
     (let w1 = w\<lparr>caches := caches_open CACHE_NAME (caches w)\<rparr>
      in case cache_match (entries CACHE_NAME (caches w1)) url of
           Some cachedResponse \<Rightarrow> (Inr cachedResponse, w1)
         | None \<Rightarrow>
             (let (fetched_response, w2) = fetch net url w1
              in case fetched_response of
                   Some response \<Rightarrow>
                     if status response = 200
                     then (Inr response,
                           w2\<lparr>caches := set_entries CACHE_NAME
                                   (cache_put url response (entries CACHE_NAME (caches w2)))
                                   (caches w2)\<rparr>)
                     else (Inr response, w2)
                 | None \<Rightarrow> (fallback_response, w2)))"

definition other_branch :: "network \<Rightarrow> string \<Rightarrow> world \<Rightarrow> (failure + response) \<times> world" where
  "other_branch net url w =
     (case caches_match (caches w) url of
        Some cached \<Rightarrow> (Inr cached, w)
      | None \<Rightarrow>
          (let (fetched_response, w1) = fetch net url w
           in case fetched_response of
                Some response \<Rightarrow> (Inr response, w1)
              | None \<Rightarrow> (Inl NetworkError, w1)))"

text \<open>
  The condition of the \<^verbatim>\<open>if\<close> statement begins with a regular expression literal. The
  text of that line of the source, from the slash that opens the literal to the end of the
  line, with \<open>CHR 0x5C\<close> the backslash:
\<close>

definition FETCH_CONDITION :: string where
  "FETCH_CONDITION =
     ''/'' @ [CHR 0x5C] @ ''.tile'' @ [CHR 0x5C] @ ''.openstreetmap'' @ [CHR 0x5C] @ ''.org''
       @ [CHR 0x5C] @ ''/.test(url)) {''"

text \<open>
  The body of a regular expression literal, as the lexical grammar of the language reads
  it after the opening slash: a backslash takes the next character with it, a slash inside
  a character class does not end the literal, and the first other slash does. The literal
  cannot contain a line terminator, so the text of the line is all there is to read: a
  literal that the line does not close is a syntax error. The result is the body and the
  text after the closing slash. A slash followed by a slash or a star opens a comment and
  not a literal.
\<close>

definition line_terminator :: "char \<Rightarrow> bool" where
  "line_terminator c = (c = CHR 0x0A \<or> c = CHR 0x0D)"

fun regex_body :: "bool \<Rightarrow> string \<Rightarrow> (string \<times> string) option" where
  "regex_body in_class [] = None"
| "regex_body in_class [c] =
     (if \<not> in_class \<and> c = CHR ''/'' then Some ([], []) else None)"
| "regex_body in_class (c # d # ds) =
     (if line_terminator c then None
      else if c = CHR 0x5C
      then (if line_terminator d then None
            else map_option (\<lambda>(pat, rest). (c # d # pat, rest)) (regex_body in_class ds))
      else if in_class
      then map_option (\<lambda>(pat, rest). (c # pat, rest)) (regex_body (c \<noteq> CHR '']'') (d # ds))
      else if c = CHR ''/'' then Some ([], d # ds)
      else map_option (\<lambda>(pat, rest). (c # pat, rest)) (regex_body (c = CHR ''['') (d # ds)))"

definition regex_literal :: "string \<Rightarrow> (string \<times> string) option" where
  "regex_literal src =
     (case src of
        [] \<Rightarrow> None
      | c # cs \<Rightarrow>
          if c = CHR ''/'' \<and> cs \<noteq> [] \<and> hd cs \<noteq> CHR ''/'' \<and> hd cs \<noteq> CHR ''*''
          then regex_body False cs else None)"

text \<open>
  The patterns considered are sequences of atoms, each an escaped character, which
  matches that character only, an unescaped dot, which matches any character but a line
  terminator, or a character that is not a syntax character, which matches itself.
  \<^verbatim>\<open>test\<close> looks for a match at any position.
\<close>

datatype atom = Lit char | AnyChar

definition syntax_character :: "char \<Rightarrow> bool" where
  "syntax_character c = (c \<in> set (CHR 0x5C # ''^$.*+?()[]{}|/''))"

fun parse_atoms :: "string \<Rightarrow> atom list option" where
  "parse_atoms [] = Some []"
| "parse_atoms [c] =
     (if c = CHR ''.'' then Some [AnyChar]
      else if syntax_character c then None
      else Some [Lit c])"
| "parse_atoms (c # d # ds) =
     (if c = CHR 0x5C
      then (if syntax_character d then map_option (Cons (Lit d)) (parse_atoms ds) else None)
      else if c = CHR ''.'' then map_option (Cons AnyChar) (parse_atoms (d # ds))
      else if syntax_character c then None
      else map_option (Cons (Lit c)) (parse_atoms (d # ds)))"

fun atom_matches :: "atom \<Rightarrow> char \<Rightarrow> bool" where
  "atom_matches (Lit c) d = (c = d)"
| "atom_matches AnyChar d = (\<not> line_terminator d)"

fun match_here :: "atom list \<Rightarrow> string \<Rightarrow> bool" where
  "match_here [] s = True"
| "match_here (a # as) [] = False"
| "match_here (a # as) (c # cs) = (atom_matches a c \<and> match_here as cs)"

fun regex_test :: "atom list \<Rightarrow> string \<Rightarrow> bool" where
  "regex_test p [] = match_here p []"
| "regex_test p (c # cs) = (match_here p (c # cs) \<or> regex_test p cs)"

text \<open>
  The fetch listener that a text of the condition gives: a syntax error when the regular
  expression literal is not closed; otherwise, when the literal is followed by the call of
  \<^verbatim>\<open>test\<close> on the URL and its pattern is a sequence of atoms, the handler that takes the
  tile branch for the URLs the pattern matches and the other branch for the rest. Other
  conditions are not modelled.
\<close>

datatype 'a parsed = SyntaxError | Unsupported | Parsed 'a

type_synonym handler = "network \<Rightarrow> string \<Rightarrow> world \<Rightarrow> (failure + response) \<times> world"

definition dispatch :: "atom list \<Rightarrow> handler" where
  "dispatch p net url w =
     (if regex_test p url then tile_branch net url w else other_branch net url w)"

definition listener_of :: "string \<Rightarrow> handler parsed" where
  "listener_of condition =
     (case regex_literal condition of
        None \<Rightarrow> SyntaxError
      | Some (pat, rest) \<Rightarrow>
          if rest = ''.test(url)) {''
          then (case parse_atoms pat of None \<Rightarrow> Unsupported | Some p \<Rightarrow> Parsed (dispatch p))
          else Unsupported)"

definition fetch_listener :: "handler parsed" where
  "fetch_listener = listener_of FETCH_CONDITION"

section \<open>Properties of the rounding\<close>

lemma round_even_of_int [simp]: "round_even (of_int k) = k"
  by (simp add: round_even_def)

lemma round_even_cases: "round_even r = \<lfloor>r\<rfloor> \<or> round_even r = \<lfloor>r\<rfloor> + 1"
  by (simp add: round_even_def Let_def)


lemma round_even_mono:
  assumes "r \<le> s"
  shows "round_even r \<le> round_even s"
proof (cases "\<lfloor>r\<rfloor> < \<lfloor>s\<rfloor>")
  case True
  have "round_even r \<le> \<lfloor>r\<rfloor> + 1" using round_even_cases [of r] by auto
  also have "\<dots> \<le> \<lfloor>s\<rfloor>" using True by simp
  also have "\<dots> \<le> round_even s" using round_even_cases [of s] by auto
  finally show ?thesis .
next
  case False
  then have "\<lfloor>r\<rfloor> = \<lfloor>s\<rfloor>" using assms floor_mono [of r s] by simp
  then show ?thesis
    using assms by (simp add: round_even_def Let_def)
qed

lemma round_even_minus: "round_even (- r) = - round_even r"
proof (cases "r = of_int \<lfloor>r\<rfloor>")
  case True
  then obtain k where "r = of_int k" ..
  then have "- r = of_int (- k)" by simp
  then show ?thesis using \<open>r = of_int k\<close> by (simp only: round_even_of_int)
next
  case False
  have "of_int \<lfloor>r\<rfloor> \<le> r" by (rule of_int_floor_le)
  with False have lt: "of_int \<lfloor>r\<rfloor> < r" by (rule order.not_eq_order_implies_strict [OF not_sym])
  have up: "r < of_int \<lfloor>r\<rfloor> + 1" by linarith
  have fl: "\<lfloor>- r\<rfloor> = - \<lfloor>r\<rfloor> - 1"
  proof (rule floor_unique)
    show "of_int (- \<lfloor>r\<rfloor> - 1) \<le> - r" using up by linarith
    show "- r < of_int (- \<lfloor>r\<rfloor> - 1) + 1" using lt by linarith
  qed
  show ?thesis
    using lt by (auto simp: round_even_def Let_def fl)
qed

lemma ulp_pos [simp]: "0 < ulp x"
  by (simp add: ulp_def)

lemma ulp_nonzero [simp]: "ulp x \<noteq> 0"
  by (simp add: ulp_def)

lemma abs_ulp [simp]: "\<bar>ulp x\<bar> = ulp x"
  by (simp add: ulp_def)

lemma binade_minus [simp]: "binade (- x) = binade x"
  by (simp add: binade_def)

lemma ulp_minus [simp]: "ulp (- x) = ulp x"
  by (simp add: ulp_def)

lemma binade_ge: "- 1022 \<le> binade x"
  by (simp add: binade_def)

lemma pow2_diff: "2 powr of_int a / 2 powr of_int b = (2::real) powr of_int (a - b)"
  by (simp add: powr_diff)

lemma pow2_nonneg_int: "0 \<le> n \<Longrightarrow> (2::real) powr of_int n = of_int (2 ^ nat n)"
  using powr_realpow [of 2 "nat n"] by simp

lemma binade_upper: "\<bar>x\<bar> < 2 powr of_int (binade x + 1)"
proof (cases "x = 0")
  case True
  then show ?thesis by simp
next
  case False
  then have "0 < \<bar>x\<bar>" by simp
  then have "\<bar>x\<bar> < 2 powr (of_int \<lfloor>log 2 \<bar>x\<bar>\<rfloor> + 1)"
    using floor_log_eq_powr_iff [of "\<bar>x\<bar>" 2 "\<lfloor>log 2 \<bar>x\<bar>\<rfloor>"] by simp
  also have "\<dots> \<le> 2 powr of_int (binade x + 1)"
    using False by (simp add: binade_def)
  finally show ?thesis .
qed

lemma binade_lower:
  assumes "- 1022 < binade x"
  shows "2 powr of_int (binade x) \<le> \<bar>x\<bar>"
proof -
  from assms have nz: "x \<noteq> 0" and b: "binade x = \<lfloor>log 2 \<bar>x\<bar>\<rfloor>"
    by (auto simp: binade_def split: if_splits)
  then have "0 < \<bar>x\<bar>" by simp
  then show ?thesis
    using floor_log_eq_powr_iff [of "\<bar>x\<bar>" 2 "\<lfloor>log 2 \<bar>x\<bar>\<rfloor>"] by (simp add: b)
qed


lemma binade_subnormal:
  assumes "\<bar>x\<bar> < 2 powr (- 1022)"
  shows "binade x = - 1022"
proof (cases "x = 0")
  case True
  then show ?thesis by (simp add: binade_def)
next
  case False
  then have pos: "0 < \<bar>x\<bar>" by simp
  have "\<lfloor>log 2 \<bar>x\<bar>\<rfloor> \<le> - 1022"
  proof (rule ccontr)
    assume "\<not> \<lfloor>log 2 \<bar>x\<bar>\<rfloor> \<le> - 1022"
    then have "- 1022 < binade x" using False by (simp add: binade_def)
    from binade_lower [OF this] have "2 powr of_int (binade x) \<le> \<bar>x\<bar>" .
    moreover have "(2::real) powr (- 1022) \<le> 2 powr of_int (binade x)"
      using binade_ge [of x] by (intro powr_mono) simp_all
    ultimately show False using assms by linarith
  qed
  then show ?thesis using False by (simp add: binade_def)
qed

lemma binade_mono:
  assumes "\<bar>x\<bar> \<le> \<bar>y\<bar>"
  shows "binade x \<le> binade y"
proof (rule ccontr)
  assume "\<not> binade x \<le> binade y"
  then have lt: "binade y + 1 \<le> binade x" by simp
  then have "- 1022 < binade x" using binade_ge [of y] by linarith
  from binade_lower [OF this] have "2 powr of_int (binade x) \<le> \<bar>x\<bar>" .
  moreover have "(2::real) powr of_int (binade y + 1) \<le> 2 powr of_int (binade x)"
    using lt by (intro powr_mono) simp_all
  moreover note binade_upper [of y]
  ultimately show False using assms by linarith
qed

lemma rnd_minus [simp]: "rnd (- x) = - rnd x"
  by (simp add: rnd_def round_even_minus)

lemma rnd_zero [simp]: "rnd 0 = 0"
  using round_even_of_int [of 0] by (simp add: rnd_def)


text \<open>Grid points of the binade of a number bound its rounding.\<close>

lemma rnd_le_grid:
  assumes "x \<le> ulp x * of_int k"
  shows "rnd x \<le> ulp x * of_int k"
proof -
  have "x / ulp x \<le> of_int k" using assms by (simp add: field_simps)
  from round_even_mono [OF this] have "round_even (x / ulp x) \<le> k" by simp
  then show ?thesis by (simp add: rnd_def)
qed

lemma rnd_ge_grid:
  assumes "ulp x * of_int k \<le> x"
  shows "ulp x * of_int k \<le> rnd x"
proof -
  have "of_int k \<le> x / ulp x" using assms by (simp add: field_simps)
  from round_even_mono [OF this] have "k \<le> round_even (x / ulp x)" by simp
  then show ?thesis by (simp add: rnd_def)
qed

lemma rnd_grid:
  assumes "x = ulp x * of_int k"
  shows "rnd x = x"
  using rnd_le_grid [of x k] rnd_ge_grid [of x k] assms by simp

lemma pow2_split:
  assumes "k \<le> e"
  shows "(2::real) powr of_int e = 2 powr of_int k * of_int (2 ^ nat (e - k))"
proof -
  have "(2::real) powr of_int e = 2 powr (of_int k + of_int (e - k))" by simp
  also have "\<dots> = 2 powr of_int k * 2 powr of_int (e - k)" by (rule powr_add)
  also have "2 powr of_int (e - k) = (of_int (2 ^ nat (e - k)) :: real)"
    using assms by (intro pow2_nonneg_int) simp
  finally show ?thesis .
qed

lemma rnd_exact:
  assumes x: "x = of_int m * 2 powr of_int e" and m: "\<bar>m\<bar> < 2 ^ 53" and e: "- 1074 \<le> e"
  shows "rnd x = x"
proof (cases "m = 0")
  case True
  with x show ?thesis by simp
next
  case False
  have "binade x - 52 \<le> e"
  proof (cases "- 1022 < binade x")
    case True
    from binade_lower [OF True] have "2 powr of_int (binade x) \<le> \<bar>x\<bar>" .
    also have "\<bar>x\<bar> = of_int \<bar>m\<bar> * 2 powr of_int e" by (simp add: x abs_mult)
    also have "\<dots> < 2 ^ 53 * 2 powr of_int e"
    proof -
      have "(of_int \<bar>m\<bar> :: real) < of_int (2 ^ 53)" using m by (simp only: of_int_less_iff)
      then show ?thesis by simp
    qed
    also have "\<dots> = 2 powr of_int (e + 53)"
      using powr_add [of "2::real" "of_int e" 53] by (simp add: mult.commute)
    finally have "of_int (binade x) < (of_int (e + 53) :: real)"
      by (simp only: powr_less_cancel_iff)
    then have "binade x < e + 53" by (simp only: of_int_less_iff)
    then show ?thesis by simp
  next
    case False
    with binade_ge [of x] have "binade x = - 1022" by simp
    with e show ?thesis by simp
  qed
  then have "2 powr of_int e = ulp x * of_int (2 ^ nat (e - (binade x - 52)))"
    unfolding ulp_def by (rule pow2_split)
  then have "x = ulp x * of_int (m * 2 ^ nat (e - (binade x - 52)))"
    by (simp add: x)
  then show ?thesis by (rule rnd_grid)
qed

lemma rnd_nonneg: "0 \<le> x \<Longrightarrow> 0 \<le> rnd x"
  using rnd_ge_grid [of x 0] by simp

lemma rnd_mono_nonneg:
  assumes "0 \<le> x" and "x \<le> y"
  shows "rnd x \<le> rnd y"
proof (cases "binade x = binade y")
  case True
  then have u: "ulp x = ulp y" by (simp add: ulp_def)
  have "x / ulp y \<le> y / ulp y"
    by (rule divide_right_mono [OF assms(2) less_imp_le [OF ulp_pos]])
  from round_even_mono [OF this] show ?thesis
    by (simp add: rnd_def u)
next
  case False
  have "\<bar>x\<bar> \<le> \<bar>y\<bar>" using assms by simp
  from binade_mono [OF this] False have lt: "binade x < binade y" by simp
  let ?c = "(2::real) powr of_int (binade y)"
  have "- 1022 < binade y" using lt binade_ge [of x] by linarith
  from binade_lower [OF this] have cy: "?c \<le> y" using assms by simp
  have "x < 2 powr of_int (binade x + 1)" using binade_upper [of x] assms(1) by simp
  also have "\<dots> \<le> ?c" using lt by (intro powr_mono) simp_all
  finally have xc: "x \<le> ?c" by simp
  have "?c = ulp x * of_int (2 ^ nat (binade y - (binade x - 52)))"
    unfolding ulp_def using lt by (intro pow2_split) simp
  with xc rnd_le_grid [of x "2 ^ nat (binade y - (binade x - 52))"] have "rnd x \<le> ?c"
    by simp
  moreover have "?c = ulp y * of_int (2 ^ nat (binade y - (binade y - 52)))"
    unfolding ulp_def by (intro pow2_split) simp
  with cy rnd_ge_grid [of y "2 ^ nat (binade y - (binade y - 52))"] have "?c \<le> rnd y"
    by simp
  ultimately show ?thesis by simp
qed

lemma rnd_mono:
  assumes "x \<le> y"
  shows "rnd x \<le> rnd y"
proof (cases "0 \<le> x")
  case True
  then show ?thesis using assms by (rule rnd_mono_nonneg)
next
  case False
  show ?thesis
  proof (cases "y \<le> 0")
    case True
    have "rnd (- y) \<le> rnd (- x)" using True assms by (intro rnd_mono_nonneg) simp_all
    then show ?thesis by simp
  next
    case pos: False
    have "rnd (- x) \<ge> 0" using False by (intro rnd_nonneg) simp
    moreover have "0 \<le> rnd y" using pos by (intro rnd_nonneg) simp
    ultimately show ?thesis by simp
  qed
qed


lemma pow2_below_OVERFLOW: "n < 1024 \<Longrightarrow> 2 ^ n < OVERFLOW"
  unfolding OVERFLOW_def by (rule power_strict_increasing) simp_all

lemma fl_finite:
  assumes "\<bar>rnd x\<bar> < OVERFLOW"
  shows "fl x = Fin (rnd x)"
  using assms by (auto simp: fl_def)

lemma fl_exact:
  assumes "x = of_int m * 2 powr of_int e" and "\<bar>m\<bar> < 2 ^ 53" and "- 1074 \<le> e"
    and "\<bar>x\<bar> < OVERFLOW"
  shows "fl x = Fin x"
  using rnd_exact [OF assms(1-3)] assms(4) by (simp add: fl_finite)

lemma fl_int:
  assumes "\<bar>k\<bar> \<le> 2 ^ 53"
  shows "fl (of_int k) = Fin (of_int k)"
proof -
  have "\<bar>(of_int k :: real)\<bar> = of_int \<bar>k\<bar>" by simp
  also have "\<dots> \<le> of_int (2 ^ 53)" using assms by (simp only: of_int_le_iff)
  also have "\<dots> = 2 ^ 53" by simp
  also have "\<dots> < OVERFLOW" by (rule pow2_below_OVERFLOW) simp
  finally have small: "\<bar>(of_int k :: real)\<bar> < OVERFLOW" .
  show ?thesis
  proof (cases "\<bar>k\<bar> < 2 ^ 53")
    case True
    then show ?thesis
      using small by (intro fl_exact [of _ k 0]) simp_all
  next
    case False
    with assms have "\<bar>k\<bar> = 2 ^ 53" by simp
    then consider "k = 2 ^ 53" | "k = - (2 ^ 53)" by (auto simp: abs_if split: if_splits)
    then show ?thesis
    proof cases
      case 1
      show ?thesis using small unfolding 1 by (intro fl_exact [of _ 1 53]) simp_all
    next
      case 2
      show ?thesis using small unfolding 2 by (intro fl_exact [of _ "- 1" 53]) simp_all
    qed
  qed
qed

lemma one_below_OVERFLOW [simp]: "1 < OVERFLOW"
  using pow2_below_OVERFLOW [of 0] by simp

lemma fl_zero [simp]: "fl 0 = Fin 0"
  using fl_int [of 0] by simp

lemma fl_one [simp]: "fl 1 = Fin 1"
  using fl_int [of 1] by simp

lemma fl_360 [simp]: "fl 360 = Fin 360"
  using fl_int [of 360] by simp

lemma fl_half [simp]: "fl (1 / 2) = Fin (1 / 2)"
proof (rule fl_exact [of _ 1 "- 1"])
  show "(1 / 2 :: real) = of_int 1 * 2 powr of_int (- 1)" by (simp add: powr_minus)
  show "\<bar>1 / 2 :: real\<bar> < OVERFLOW" using one_below_OVERFLOW by linarith
qed simp_all

lemma latLonToTile_antimeridian_column: "fst (latLonToTile m (Fin 0) (Fin 180) 0) = Fin 1"
  by (simp add: latLonToTile_def Let_def Math_pow2_def)


lemma fl_between:
  assumes "lo \<le> x" and "x \<le> hi" and "rnd lo = lo" and "rnd hi = hi"
    and "- OVERFLOW < lo" and "hi < OVERFLOW"
  shows "\<exists>r. fl x = Fin r \<and> lo \<le> r \<and> r \<le> hi"
proof -
  have "lo \<le> rnd x" using rnd_mono [OF assms(1)] assms(3) by simp
  moreover have "rnd x \<le> hi" using rnd_mono [OF assms(2)] assms(4) by simp
  ultimately show ?thesis using assms(5,6) by (auto simp: fl_def)
qed

lemma rnd_pow2: "rnd (2 ^ n) = 2 ^ n"
proof (rule rnd_exact [of _ 1 "int n"])
  show "(2::real) ^ n = of_int 1 * 2 powr of_int (int n)"
    using powr_realpow [of 2 n] by simp
qed simp_all

lemma rnd_below_pow2: "rnd ((1 - 1 / 2 ^ 53) * 2 ^ n) = (1 - 1 / 2 ^ 53) * 2 ^ n"
proof (rule rnd_exact [of _ "2 ^ 53 - 1" "int n - 53"])
  have "(2::real) powr of_int (int n - 53) = 2 powr (of_int (int n) + (- 53))" by simp
  also have "\<dots> = 2 powr of_int (int n) * 2 powr (- 53)" by (rule powr_add)
  also have "\<dots> = 2 ^ n * (1 / 2 ^ 53)"
    using powr_realpow [of 2 n] by (simp add: powr_neg_numeral)
  finally have "(2::real) powr of_int (int n - 53) = 2 ^ n * (1 / 2 ^ 53)" .
  then show "(1 - 1 / 2 ^ 53) * 2 ^ n = (of_int (2 ^ 53 - 1) * 2 powr of_int (int n - 53) :: real)"
    by (simp add: field_simps)
qed simp_all

lemma rnd_below_one: "rnd (1 - 1 / 2 ^ 53) = 1 - 1 / 2 ^ 53"
  using rnd_below_pow2 [of 0] by simp

lemma rnd_below_two: "rnd (2 - 1 / 2 ^ 52) = 2 - 1 / 2 ^ 52"
  using rnd_below_pow2 [of 1] by (simp add: field_simps)

lemma rnd_below_360: "rnd (360 - 1 / 2 ^ 44) = 360 - 1 / 2 ^ 44"
proof (rule rnd_exact [of _ "360 * 2 ^ 44 - 1" "- 44"])
  show "(360 - 1 / 2 ^ 44 :: real) = of_int (360 * 2 ^ 44 - 1) * 2 powr of_int (- 44)"
    by (simp add: powr_neg_numeral field_simps)
qed simp_all

lemma rnd_one [simp]: "rnd 1 = 1"
  using rnd_pow2 [of 0] by simp

lemma rnd_360 [simp]: "rnd 360 = 360"
  by (rule rnd_exact [of _ 360 0]) simp_all

text \<open>Scaling a fraction by the power of two and taking the floor.\<close>

lemma scaled_floor:
  assumes "0 \<le> v" and "v \<le> 1" and "zoom < 1024"
  shows "\<exists>k. Math_floor (num_mul (Fin v) (Math_pow2 zoom)) = Fin (of_int k)
           \<and> 0 \<le> k \<and> k \<le> 2 ^ zoom \<and> (v \<le> 1 - 1 / 2 ^ 53 \<longrightarrow> k < 2 ^ zoom)"
proof -
  have n: "(2::real) ^ zoom < OVERFLOW" using assms(3) by (rule pow2_below_OVERFLOW)
  have pos: "(0::real) < 2 ^ zoom" by simp
  have "0 \<le> v * 2 ^ zoom" using assms(1) by simp
  moreover have "v * 2 ^ zoom \<le> 2 ^ zoom" using assms(2) by simp
  moreover have "- OVERFLOW < 0" using n pos by linarith
  ultimately obtain c where c: "fl (v * 2 ^ zoom) = Fin c" "0 \<le> c" "c \<le> 2 ^ zoom"
    using fl_between [of 0 "v * 2 ^ zoom" "2 ^ zoom"] n by (auto simp: rnd_pow2)
  have strict: "c < 2 ^ zoom" if "v \<le> 1 - 1 / 2 ^ 53"
  proof -
    have "v * 2 ^ zoom \<le> (1 - 1 / 2 ^ 53) * 2 ^ zoom"
      using that by (intro mult_right_mono) simp_all
    then have "rnd (v * 2 ^ zoom) \<le> (1 - 1 / 2 ^ 53) * 2 ^ zoom"
      using rnd_mono [of "v * 2 ^ zoom" "(1 - 1 / 2 ^ 53) * 2 ^ zoom"]
      by (simp only: rnd_below_pow2)
    moreover have "rnd (v * 2 ^ zoom) = c"
      using c(1) by (auto simp: fl_def split: if_splits)
    moreover have "(1 - 1 / 2 ^ 53) * 2 ^ zoom < (2::real) ^ zoom"
      by (simp add: field_simps)
    ultimately show ?thesis by linarith
  qed
  have eq: "Math_floor (num_mul (Fin v) (Math_pow2 zoom)) = Fin (of_int \<lfloor>c\<rfloor>)"
    using assms(3) c(1) by (simp add: Math_pow2_def)
  have "0 \<le> \<lfloor>c\<rfloor>" using c(2) by simp
  moreover have "\<lfloor>c\<rfloor> \<le> 2 ^ zoom"
  proof -
    have "c \<le> of_int (2 ^ zoom)" using c(3) by simp
    then show ?thesis by (simp only: floor_le_iff)
  qed
  moreover have "\<lfloor>c\<rfloor> < 2 ^ zoom" if "v \<le> 1 - 1 / 2 ^ 53"
  proof -
    have "c < of_int (2 ^ zoom)" using strict [OF that] by simp
    then show ?thesis by (simp only: floor_less_iff)
  qed
  ultimately show ?thesis using eq by blast
qed

section \<open>Properties of the tile coordinate mapper\<close>

lemma latLonToTile_column:
  "fst (latLonToTile m lat (Fin lon) zoom) =
     Math_floor (num_mul (num_div (fl (lon + 180)) (Fin 360)) (Math_pow2 zoom))"
  by (simp add: latLonToTile_def Let_def)

lemma latLonToTile_row:
  "snd (latLonToTile m lat lon zoom) =
     Math_floor (num_mul (num_div (num_sub (Fin 1) (mercator_fraction m lat)) (Fin 2))
       (Math_pow2 zoom))"
  by (simp add: latLonToTile_def mercator_fraction_def Let_def)

lemma OVERFLOW_large: "512 < OVERFLOW"
  using pow2_below_OVERFLOW [of 9] by simp

lemma column_fraction:
  assumes "- 180 \<le> lon" and "lon \<le> 180"
  shows "\<exists>b. num_div (fl (lon + 180)) (Fin 360) = Fin b \<and> 0 \<le> b \<and> b \<le> 1
           \<and> (lon \<le> 180 - 1 / 2 ^ 44 \<longrightarrow> b \<le> 1 - 1 / 2 ^ 53)"
proof -
  have big: "- OVERFLOW < 0" "360 < OVERFLOW" "1 < OVERFLOW"
    using OVERFLOW_large by simp_all
  obtain a where a: "fl (lon + 180) = Fin a" "0 \<le> a" "a \<le> 360"
    using fl_between [of 0 "lon + 180" 360] assms big by auto
  have a': "a \<le> 360 - 1 / 2 ^ 44" if "lon \<le> 180 - 1 / 2 ^ 44"
  proof -
    have "lon + 180 \<le> 360 - 1 / 2 ^ 44" using that by simp
    from rnd_mono [OF this] have "rnd (lon + 180) \<le> 360 - 1 / 2 ^ 44"
      by (simp only: rnd_below_360)
    moreover have "rnd (lon + 180) = a" using a(1) by (auto simp: fl_def split: if_splits)
    ultimately show ?thesis by simp
  qed
  obtain b where b: "fl (a / 360) = Fin b" "0 \<le> b" "b \<le> 1"
    using fl_between [of 0 "a / 360" 1] a(2,3) big by auto
  have b': "b \<le> 1 - 1 / 2 ^ 53" if "lon \<le> 180 - 1 / 2 ^ 44"
  proof -
    have "a / 360 \<le> (360 - 1 / 2 ^ 44) / 360" using a' [OF that] by (simp add: divide_right_mono)
    also have "\<dots> \<le> 1 - 1 / 2 ^ 53" by simp
    finally have "rnd (a / 360) \<le> 1 - 1 / 2 ^ 53"
      using rnd_mono [of "a / 360" "1 - 1 / 2 ^ 53"] by (simp only: rnd_below_one)
    moreover have "rnd (a / 360) = b" using b(1) by (auto simp: fl_def split: if_splits)
    ultimately show ?thesis by simp
  qed
  have "num_div (fl (lon + 180)) (Fin 360) = Fin b" using a(1) b(1) by simp
  with b(2,3) b' show ?thesis by blast
qed

text \<open>
  The column is in the grid for the longitudes from \<open>- 180\<close> up to the second double
  below \<open>180\<close>, and the row is in the grid when the Mercator fraction is a number above
  \<open>- 1\<close> and at most \<open>1\<close>.
\<close>

lemma column_in_grid:
  assumes "- 180 \<le> lon" and "lon \<le> 180" and "zoom < 1024"
  shows "\<exists>k. fst (latLonToTile m lat (Fin lon) zoom) = Fin (of_int k) \<and> 0 \<le> k \<and> k \<le> 2 ^ zoom
           \<and> (lon \<le> 180 - 1 / 2 ^ 44 \<longrightarrow> k < 2 ^ zoom)"
proof -
  obtain b where b: "num_div (fl (lon + 180)) (Fin 360) = Fin b" "0 \<le> b" "b \<le> 1"
      "lon \<le> 180 - 1 / 2 ^ 44 \<longrightarrow> b \<le> 1 - 1 / 2 ^ 53"
    using column_fraction [OF assms(1,2)] by blast
  from scaled_floor [OF b(2,3) assms(3)] b(1,4) show ?thesis
    unfolding latLonToTile_column by auto
qed

lemma row_in_grid:
  assumes "mercator_fraction m lat = Fin q" and "- 1 + 1 / 2 ^ 52 \<le> q" and "q \<le> 1"
    and "zoom < 1024"
  shows "\<exists>k. snd (latLonToTile m lat lon zoom) = Fin (of_int k) \<and> 0 \<le> k \<and> k < 2 ^ zoom"
proof -
  have big: "- OVERFLOW < 0" "2 - 1 / 2 ^ 52 < OVERFLOW" "1 - 1 / 2 ^ 53 < OVERFLOW"
    using OVERFLOW_large by simp_all
  have q: "0 \<le> 1 - q" "1 - q \<le> 2 - 1 / 2 ^ 52" using assms(2,3) by simp_all
  obtain e where e: "fl (1 - q) = Fin e" "0 \<le> e" "e \<le> 2 - 1 / 2 ^ 52"
    using fl_between [OF q rnd_zero rnd_below_two big(1,2)] by blast
  have h: "0 \<le> e / 2" "e / 2 \<le> 1 - 1 / 2 ^ 53" using e(2,3) by simp_all
  obtain v where v: "fl (e / 2) = Fin v" "0 \<le> v" "v \<le> 1 - 1 / 2 ^ 53"
    using fl_between [OF h rnd_zero rnd_below_one big(1,3)] by blast
  have v1: "v \<le> 1" using v(3) by simp
  have "num_div (num_sub (Fin 1) (mercator_fraction m lat)) (Fin 2) = Fin v"
    using e(1) v(1) by (simp add: assms(1) num_sub_def)
  with scaled_floor [OF v(2) v1 assms(4)] v(3) show ?thesis
    unfolding latLonToTile_row by auto
qed








lemma fl_numeral [simp]: "(numeral k :: int) \<le> 2 ^ 53 \<Longrightarrow> fl (numeral k) = Fin (numeral k)"
  using fl_int [of "numeral k"] by simp

lemma fl_dyadic:
  assumes "\<bar>k\<bar> < 2 ^ 53" and "n \<le> 1074"
  shows "fl (of_int k / 2 ^ n) = Fin (of_int k / 2 ^ n)"
proof (rule fl_exact [of _ k "- int n"])
  have "(2::real) powr of_int (- int n) = 1 / 2 ^ n"
    by (simp add: powr_minus powr_realpow divide_inverse)
  then show "real_of_int k / 2 ^ n = of_int k * 2 powr of_int (- int n)" by simp
  show "\<bar>k\<bar> < 2 ^ 53" by (rule assms(1))
  show "- 1074 \<le> - int n" using assms(2) by simp
  have "\<bar>real_of_int k / 2 ^ n\<bar> \<le> \<bar>real_of_int k\<bar>"
    by (simp add: divide_le_eq mult_le_cancel_left1)
  also have "\<dots> = real_of_int \<bar>k\<bar>" by simp
  also have "\<dots> < real_of_int (2 ^ 53)" using assms(1) by (simp only: of_int_less_iff)
  also have "\<dots> = 2 ^ 53" by simp
  also have "\<dots> < OVERFLOW" by (rule pow2_below_OVERFLOW) simp
  finally show "\<bar>real_of_int k / 2 ^ n\<bar> < OVERFLOW" .
qed

lemma fl_quarters [simp]:
  "fl (1 / 4) = Fin (1 / 4)" "fl (3 / 4) = Fin (3 / 4)" "fl (3 / 2) = Fin (3 / 2)"
  using fl_dyadic [of 1 2] fl_dyadic [of 3 2] fl_dyadic [of 3 1] by simp_all
















section \<open>Properties of the tile URL generator\<close>






lemma safe_index_int: "\<bar>k\<bar> < 2 ^ 53 \<Longrightarrow> safe_index (Fin (of_int k)) = Some k"
proof -
  assume "\<bar>k\<bar> < 2 ^ 53"
  then have "real_of_int \<bar>k\<bar> < real_of_int (2 ^ 53)" by (simp only: of_int_less_iff)
  then have "\<bar>real_of_int k\<bar> < 2 ^ 53" by simp
  then show ?thesis by (simp add: safe_index_def)
qed

lemma Math_min_int [simp]:
  "Math_min (Fin (of_int a)) (Fin (of_int b)) = Fin (of_int (min a b))"
  by (simp add: Math_min_def min_def)

lemma Math_max_int [simp]:
  "Math_max (Fin (of_int a)) (Fin (of_int b)) = Fin (of_int (max a b))"
  by (simp add: Math_max_def max_def)








lemma Math_min_same [simp]: "Math_min (Fin a) (Fin a) = Fin a"
  by (simp add: Math_min_def)

lemma Math_max_same [simp]: "Math_max (Fin a) (Fin a) = Fin a"
  by (simp add: Math_max_def)


lemma those_map_defined:
  assumes "\<And>z. z \<in> set zs \<Longrightarrow> \<exists>t. f z = Some t"
  shows "\<exists>tss. those (map f zs) = Some tss"
  using assms
proof (induction zs)
  case Nil
  then show ?case by simp
next
  case (Cons z zs)
  then obtain t tss where "f z = Some t" "those (map f zs) = Some tss"
    by (metis list.set_intros(1) list.set_intros(2))
  then show ?case by simp
qed

lemma safe_index_in_grid:
  assumes "v = Fin (of_int k)" and "0 \<le> k" and "k \<le> 2 ^ zoom" and "zoom \<le> 52"
  shows "safe_index v = Some k"
proof -
  have "(2::int) ^ zoom \<le> 2 ^ 52" using assms(4) by (intro power_increasing) simp_all
  then have "\<bar>k\<bar> < 2 ^ 53" using assms(2,3) by simp
  then show ?thesis unfolding assms(1) by (rule safe_index_int)
qed

lemma tile_range_defined:
  assumes "lonMin region = Fin a" and "- 180 \<le> a" and "a \<le> 180"
    and "lonMax region = Fin b" and "- 180 \<le> b" and "b \<le> 180"
    and "mercator_fraction m (latMin region) = Fin p" and "- 1 + 1 / 2 ^ 52 \<le> p" and "p \<le> 1"
    and "mercator_fraction m (latMax region) = Fin q" and "- 1 + 1 / 2 ^ 52 \<le> q" and "q \<le> 1"
    and "zoom \<le> 52"
  shows "\<exists>r. tile_range m region zoom = Some r"
proof -
  have z: "zoom < 1024" using assms(13) by simp
  obtain x1 where x1: "fst (latLonToTile m (latMin region) (Fin a) zoom) = Fin (of_int x1)"
      "0 \<le> x1" "x1 \<le> 2 ^ zoom"
    using column_in_grid [OF assms(2,3) z] by blast
  obtain x2 where x2: "fst (latLonToTile m (latMax region) (Fin b) zoom) = Fin (of_int x2)"
      "0 \<le> x2" "x2 \<le> 2 ^ zoom"
    using column_in_grid [OF assms(5,6) z] by blast
  obtain y1 where y1: "snd (latLonToTile m (latMin region) (Fin a) zoom) = Fin (of_int y1)"
      "0 \<le> y1" "y1 \<le> 2 ^ zoom"
    using row_in_grid [OF assms(7,8,9) z, of "Fin a"] by force
  obtain y2 where y2: "snd (latLonToTile m (latMax region) (Fin b) zoom) = Fin (of_int y2)"
      "0 \<le> y2" "y2 \<le> 2 ^ zoom"
    using row_in_grid [OF assms(10,11,12) z, of "Fin b"] by force
  show ?thesis
    by (simp add: tile_range_def Let_def assms(1,4)
        safe_index_in_grid [OF x1 assms(13)] safe_index_in_grid [OF x2 assms(13)]
        safe_index_in_grid [OF y1 assms(13)] safe_index_in_grid [OF y2 assms(13)])
qed

text \<open>
  The coverage is defined for the regions of the map at the zoom levels up to 52: the
  longitudes of the corners are from \<open>- 180\<close> to \<open>180\<close>, and at both latitudes the
  Mercator fraction that the engine computes is a number from \<open>- 1 + 1 / 2 ^ 52\<close> to
  \<open>1\<close>.
\<close>

lemma coverage_defined:
  assumes "lonMin region = Fin a" and "- 180 \<le> a" and "a \<le> 180"
    and "lonMax region = Fin b" and "- 180 \<le> b" and "b \<le> 180"
    and "mercator_fraction m (latMin region) = Fin p" and "- 1 + 1 / 2 ^ 52 \<le> p" and "p \<le> 1"
    and "mercator_fraction m (latMax region) = Fin q" and "- 1 + 1 / 2 ^ 52 \<le> q" and "q \<le> 1"
    and "\<And>zoom. zoom \<in> set (zoomLevels region) \<Longrightarrow> zoom \<le> 52"
  shows "\<exists>tiles. coverage m region = Some tiles"
proof -
  have "\<exists>t. coverage_at m region zoom = Some t" if "zoom \<in> set (zoomLevels region)" for zoom
    using tile_range_defined [OF assms(1-12) assms(13) [OF that]]
    by (auto simp: coverage_at_def)
  from those_map_defined [of "zoomLevels region" "coverage_at m region", OF this]
  show ?thesis by (auto simp: coverage_def)
qed




lemma safe_index_small [simp]: "safe_index (Fin 0) = Some 0" "safe_index (Fin 1) = Some 1"
  using safe_index_int [of 0] safe_index_int [of 1] by simp_all


section \<open>Properties of the lifecycle handlers\<close>

subsection \<open>Activation\<close>

lemma delete_stale_filter:
  "delete_stale key cs = filter (\<lambda>e. fst e \<noteq> key \<or> fst e = CACHE_NAME) cs"
  by (auto simp: delete_stale_def caches_delete_def intro: filter_cong)

lemma fold_delete_stale:
  "fold delete_stale keys cs = filter (\<lambda>e. fst e \<notin> set keys \<or> fst e = CACHE_NAME) cs"
proof (induction keys arbitrary: cs)
  case Nil
  then show ?case by simp
next
  case (Cons key keys)
  have "fold delete_stale (key # keys) cs = fold delete_stale keys (delete_stale key cs)"
    by simp
  also have "\<dots> = filter (\<lambda>e. fst e \<notin> set keys \<or> fst e = CACHE_NAME)
      (filter (\<lambda>e. fst e \<noteq> key \<or> fst e = CACHE_NAME) cs)"
    by (simp only: Cons.IH delete_stale_filter)
  also have "\<dots> = filter (\<lambda>e. fst e \<notin> set (key # keys) \<or> fst e = CACHE_NAME) cs"
    by (auto intro: filter_cong)
  finally show ?case .
qed

lemma caches_activate:
  "caches (activate w) = filter (\<lambda>e. fst e = CACHE_NAME) (caches w)"
  by (auto simp: activate_def fold_delete_stale caches_keys_def intro: filter_cong)

lemma map_of_filter_key:
  "map_of (filter (\<lambda>e. fst e = k) cs) k' = (if k' = k then map_of cs k else None)"
  by (induction cs) auto

text \<open>
  C5. Whatever cache generations exist, the activate handler deletes every generation
  whose name is not the current cache name and leaves the current generation as it is:
  afterwards no generation other than the current one remains, and the current one holds
  the entries it held before.
\<close>

theorem activate_keeps_only_current:
  "caches (activate w) = filter (\<lambda>e. fst e = CACHE_NAME) (caches w)
   \<and> set (caches_keys (caches (activate w))) = set (caches_keys (caches w)) \<inter> {CACHE_NAME}
   \<and> map_of (caches (activate w)) CACHE_NAME = map_of (caches w) CACHE_NAME
   \<and> (\<forall>key. key \<noteq> CACHE_NAME \<longrightarrow> map_of (caches (activate w)) key = None)
   \<and> fetched (activate w) = fetched w"
proof (intro conjI allI impI)
  show "caches (activate w) = filter (\<lambda>e. fst e = CACHE_NAME) (caches w)"
    by (rule caches_activate)
  show "set (caches_keys (caches (activate w))) = set (caches_keys (caches w)) \<inter> {CACHE_NAME}"
    by (force simp: caches_activate caches_keys_def)
  show "map_of (caches (activate w)) CACHE_NAME = map_of (caches w) CACHE_NAME"
    by (simp add: caches_activate map_of_filter_key)
  show "map_of (caches (activate w)) key = None" if "key \<noteq> CACHE_NAME" for key
    using that by (simp add: caches_activate map_of_filter_key)
  show "fetched (activate w) = fetched w"
    by (simp add: activate_def)
qed

theorem activate_keeps_only_current_witness:
  "caches_keys (caches (activate
       \<lparr>caches = [(''leeward-point-cache-v1'', []),
                  (''leeward-point-cache-v10'', [(''/'', \<lparr>status = 200, content_type = ''text/html'', body = [60]\<rparr>)]),
                  (''leeward-point-cache-v11'', [(''/'', \<lparr>status = 200, content_type = ''text/html'', body = [62]\<rparr>)])],
        fetched = []\<rparr>)) = [''leeward-point-cache-v11'']
   \<and> ''leeward-point-cache-v10'' \<noteq> CACHE_NAME
   \<and> map_of (caches (activate
       \<lparr>caches = [(''leeward-point-cache-v1'', []),
                  (''leeward-point-cache-v10'', [(''/'', \<lparr>status = 200, content_type = ''text/html'', body = [60]\<rparr>)]),
                  (''leeward-point-cache-v11'', [(''/'', \<lparr>status = 200, content_type = ''text/html'', body = [62]\<rparr>)])],
        fetched = []\<rparr>)) ''leeward-point-cache-v10'' = None
   \<and> map_of (caches (activate
       \<lparr>caches = [(''leeward-point-cache-v1'', []),
                  (''leeward-point-cache-v10'', [(''/'', \<lparr>status = 200, content_type = ''text/html'', body = [60]\<rparr>)]),
                  (''leeward-point-cache-v11'', [(''/'', \<lparr>status = 200, content_type = ''text/html'', body = [62]\<rparr>)])],
        fetched = []\<rparr>)) CACHE_NAME
       = Some [(''/'', \<lparr>status = 200, content_type = ''text/html'', body = [62]\<rparr>)]"
  using activate_keeps_only_current
    [of "\<lparr>caches = [(''leeward-point-cache-v1'', []),
                  (''leeward-point-cache-v10'', [(''/'', \<lparr>status = 200, content_type = ''text/html'', body = [60]\<rparr>)]),
                  (''leeward-point-cache-v11'', [(''/'', \<lparr>status = 200, content_type = ''text/html'', body = [62]\<rparr>)])],
        fetched = []\<rparr>"]
  by (simp add: CACHE_NAME_def caches_keys_def)

subsection \<open>The condition of the fetch handler\<close>

lemma match_here_literal: "match_here (map Lit p) s = prefix p s"
  by (induction "map Lit p" s arbitrary: p rule: match_here.induct) auto

lemma regex_test_literal: "regex_test (map Lit p) s = sublist p s"
  by (induction s) (simp_all add: match_here_literal sublist_Cons_right)

text \<open>
  The lexer and the parser of patterns accept a literal that is closed: with a slash
  added after the escaped slash, the text of the condition gives the listener that takes
  the tile branch exactly for the URLs that contain \<^verbatim>\<open>.tile.openstreetmap.org/\<close>.
\<close>

lemma regex_literal_closed:
  "regex_literal (''/'' @ [CHR 0x5C] @ ''.tile'' @ [CHR 0x5C] @ ''.openstreetmap''
       @ [CHR 0x5C] @ ''.org'' @ [CHR 0x5C] @ ''//.test(url)) {'') =
     Some ([CHR 0x5C] @ ''.tile'' @ [CHR 0x5C] @ ''.openstreetmap'' @ [CHR 0x5C] @ ''.org''
             @ [CHR 0x5C] @ ''/'', ''.test(url)) {'')"
  by (simp add: regex_literal_def line_terminator_def)

lemma parse_atoms_closed:
  "parse_atoms ([CHR 0x5C] @ ''.tile'' @ [CHR 0x5C] @ ''.openstreetmap'' @ [CHR 0x5C] @ ''.org''
       @ [CHR 0x5C] @ ''/'') = Some (map Lit ''.tile.openstreetmap.org/'')"
  by (simp add: syntax_character_def)

lemma listener_of_closed:
  "listener_of (''/'' @ [CHR 0x5C] @ ''.tile'' @ [CHR 0x5C] @ ''.openstreetmap''
       @ [CHR 0x5C] @ ''.org'' @ [CHR 0x5C] @ ''//.test(url)) {'') =
     Parsed (dispatch (map Lit ''.tile.openstreetmap.org/''))"
  by (simp add: listener_of_def regex_literal_def line_terminator_def syntax_character_def)

lemma dispatch_literal:
  "dispatch (map Lit p) net url w =
     (if sublist p url then tile_branch net url w else other_branch net url w)"
  by (simp add: dispatch_def regex_test_literal)

lemma regex_literal_unclosed: "regex_literal FETCH_CONDITION = None"
  by (simp add: FETCH_CONDITION_def regex_literal_def line_terminator_def)

text \<open>
  C3 does not hold of the source. In the condition of the fetch handler the slash after
  \<^verbatim>\<open>org\<close> is escaped, so it belongs to the body of the regular expression literal, and no
  other slash follows on the line: the literal is not closed, the condition is a syntax
  error, and there is no fetch listener that dispatches a request to either branch.
\<close>

theorem fetch_listener_syntax_error:
  "regex_literal FETCH_CONDITION = None \<and> fetch_listener = SyntaxError"
  by (simp add: fetch_listener_def listener_of_def regex_literal_unclosed)

subsection \<open>The branches of the fetch handler\<close>

lemma entries_caches_open: "entries name' (caches_open name cs) = entries name' cs"
proof (cases "name \<in> set (caches_keys cs)")
  case True
  then show ?thesis by (simp add: caches_open_def)
next
  case False
  then have "map_of cs name = None"
    by (simp add: caches_keys_def map_of_eq_None_iff)
  with False show ?thesis
    by (simp add: caches_open_def entries_def map_add_def split: option.splits)
qed

lemma caches_open_present:
  assumes "cache_match (entries name cs) url = Some r"
  shows "caches_open name cs = cs"
proof -
  from assms have "map_of cs name \<noteq> None"
    by (auto simp: entries_def cache_match_def split: option.splits)
  then have "name \<in> set (caches_keys cs)"
    by (simp add: caches_keys_def map_of_eq_None_iff)
  then show ?thesis by (simp add: caches_open_def)
qed

lemma tile_branch_hit:
  assumes "cache_match (entries CACHE_NAME (caches w)) url = Some r"
  shows "tile_branch net url w = (Inr r, w)"
  using assms caches_open_present [OF assms]
  by (simp add: tile_branch_def)

lemma tile_branch_miss:
  assumes "cache_match (entries CACHE_NAME (caches w)) url = None"
  shows "tile_branch net url w =
     (case net url of
        Some response \<Rightarrow>
          if status response = 200
          then (Inr response,
                \<lparr>caches = set_entries CACHE_NAME
                   (cache_put url response (entries CACHE_NAME (caches w)))
                   (caches_open CACHE_NAME (caches w)),
                 fetched = fetched w @ [url]\<rparr>)
          else (Inr response,
                \<lparr>caches = caches_open CACHE_NAME (caches w), fetched = fetched w @ [url]\<rparr>)
      | None \<Rightarrow>
          (fallback_response,
           \<lparr>caches = caches_open CACHE_NAME (caches w), fetched = fetched w @ [url]\<rparr>))"
  using assms
  by (simp add: tile_branch_def fetch_def entries_caches_open split: option.splits)

text \<open>
  C7, for the tile branch. A request whose key is in the current store is answered with
  the stored response as it is; the state after the request is the state before it, so no
  network call is made and no cache is modified.
\<close>

theorem cached_tile_served_without_network:
  assumes "cache_match (entries CACHE_NAME (caches w)) url = Some r"
  shows "tile_branch net url w = (Inr r, w)
    \<and> fetched (snd (tile_branch net url w)) = fetched w
    \<and> caches (snd (tile_branch net url w)) = caches w"
  by (simp add: tile_branch_hit [OF assms])

theorem cached_tile_served_without_network_witness:
  "cache_match (entries CACHE_NAME (caches
         \<lparr>caches = [(''leeward-point-cache-v11'',
              [(''/'', \<lparr>status = 200, content_type = ''text/html'', body = [60]\<rparr>),
               (''https://b.tile.openstreetmap.org/12/1100/1700.png'',
                \<lparr>status = 200, content_type = ''image/png'', body = [137, 80, 78, 71]\<rparr>)])],
          fetched = [''/data.json'']\<rparr>))
       ''https://b.tile.openstreetmap.org/12/1100/1700.png#map''
     = Some \<lparr>status = 200, content_type = ''image/png'', body = [137, 80, 78, 71]\<rparr>
   \<and> tile_branch (\<lambda>u. Some \<lparr>status = 200, content_type = ''image/png'', body = [0]\<rparr>)
       ''https://b.tile.openstreetmap.org/12/1100/1700.png#map''
       \<lparr>caches = [(''leeward-point-cache-v11'',
            [(''/'', \<lparr>status = 200, content_type = ''text/html'', body = [60]\<rparr>),
             (''https://b.tile.openstreetmap.org/12/1100/1700.png'',
              \<lparr>status = 200, content_type = ''image/png'', body = [137, 80, 78, 71]\<rparr>)])],
        fetched = [''/data.json'']\<rparr>
     = (Inr \<lparr>status = 200, content_type = ''image/png'', body = [137, 80, 78, 71]\<rparr>,
        \<lparr>caches = [(''leeward-point-cache-v11'',
            [(''/'', \<lparr>status = 200, content_type = ''text/html'', body = [60]\<rparr>),
             (''https://b.tile.openstreetmap.org/12/1100/1700.png'',
              \<lparr>status = 200, content_type = ''image/png'', body = [137, 80, 78, 71]\<rparr>)])],
         fetched = [''/data.json'']\<rparr>)"
proof -
  have hit: "cache_match (entries CACHE_NAME (caches
         \<lparr>caches = [(''leeward-point-cache-v11'',
              [(''/'', \<lparr>status = 200, content_type = ''text/html'', body = [60]\<rparr>),
               (''https://b.tile.openstreetmap.org/12/1100/1700.png'',
                \<lparr>status = 200, content_type = ''image/png'', body = [137, 80, 78, 71]\<rparr>)])],
          fetched = [''/data.json'']\<rparr>))
       ''https://b.tile.openstreetmap.org/12/1100/1700.png#map''
     = Some \<lparr>status = 200, content_type = ''image/png'', body = [137, 80, 78, 71]\<rparr>"
    by (simp add: cache_match_def request_key_def entries_def CACHE_NAME_def)
  show ?thesis
    using hit cached_tile_served_without_network [OF hit] by simp
qed

text \<open>
  C10, for the tile branch. A request whose key is not in the current store and whose
  fetch resolves with a status other than 200 is answered with that response as it is;
  the response is not stored and the fallback image is not used. The entries of every
  cache stay as they were, so the next request for the tile goes to the network again.
\<close>

theorem tile_http_error_passed_through:
  assumes "cache_match (entries CACHE_NAME (caches w)) url = None"
    and "net url = Some r"
    and "status r \<noteq> 200"
  shows "tile_branch net url w =
           (Inr r, \<lparr>caches = caches_open CACHE_NAME (caches w), fetched = fetched w @ [url]\<rparr>)
    \<and> (\<forall>name. entries name (caches (snd (tile_branch net url w))) = entries name (caches w))
    \<and> fst (tile_branch net' url (snd (tile_branch net url w))) =
         (case net' url of Some r' \<Rightarrow> Inr r' | None \<Rightarrow> fallback_response)
    \<and> fetched (snd (tile_branch net' url (snd (tile_branch net url w)))) =
         fetched w @ [url, url]"
proof -
  let ?w' = "\<lparr>caches = caches_open CACHE_NAME (caches w), fetched = fetched w @ [url]\<rparr>"
  have first: "tile_branch net url w = (Inr r, ?w')"
    using assms by (simp add: tile_branch_miss)
  have miss': "cache_match (entries CACHE_NAME (caches ?w')) url = None"
    using assms(1) by (simp add: entries_caches_open)
  show ?thesis
    using first
    by (simp add: tile_branch_miss [OF miss'] entries_caches_open split: option.splits)
qed

theorem tile_http_error_passed_through_witness:
  "cache_match (entries CACHE_NAME (caches \<lparr>caches = [(''leeward-point-cache-v11'', [])], fetched = []\<rparr>))
        ''https://c.tile.openstreetmap.org/12/1/1.png'' = None
   \<and> status \<lparr>status = 404, content_type = ''text/html'', body = [52, 48, 52]\<rparr> \<noteq> 200
   \<and> tile_branch (\<lambda>u. Some \<lparr>status = 404, content_type = ''text/html'', body = [52, 48, 52]\<rparr>)
        ''https://c.tile.openstreetmap.org/12/1/1.png''
        \<lparr>caches = [(''leeward-point-cache-v11'', [])], fetched = []\<rparr>
      = (Inr \<lparr>status = 404, content_type = ''text/html'', body = [52, 48, 52]\<rparr>,
         \<lparr>caches = [(''leeward-point-cache-v11'', [])],
          fetched = [''https://c.tile.openstreetmap.org/12/1/1.png'']\<rparr>)
   \<and> fst (tile_branch (\<lambda>u. Some \<lparr>status = 500, content_type = ''text/html'', body = []\<rparr>)
        ''https://c.tile.openstreetmap.org/12/1/1.png''
        (snd (tile_branch (\<lambda>u. Some \<lparr>status = 404, content_type = ''text/html'', body = [52, 48, 52]\<rparr>)
           ''https://c.tile.openstreetmap.org/12/1/1.png''
           \<lparr>caches = [(''leeward-point-cache-v11'', [])], fetched = []\<rparr>)))
      = Inr \<lparr>status = 500, content_type = ''text/html'', body = []\<rparr>"
proof -
  have miss: "cache_match (entries CACHE_NAME (caches \<lparr>caches = [(''leeward-point-cache-v11'', [])], fetched = []\<rparr>))
        ''https://c.tile.openstreetmap.org/12/1/1.png'' = None"
    by (simp add: cache_match_def entries_def CACHE_NAME_def)
  have net: "(\<lambda>u. Some \<lparr>status = 404, content_type = ''text/html'', body = [52, 48, 52]\<rparr>)
        ''https://c.tile.openstreetmap.org/12/1/1.png''
      = Some \<lparr>status = 404, content_type = ''text/html'', body = [52, 48, 52]\<rparr>"
    by simp
  have st: "status \<lparr>status = 404, content_type = ''text/html'', body = [52, 48, 52]\<rparr> \<noteq> 200"
    by simp
  have again: "fst (tile_branch (\<lambda>u. Some \<lparr>status = 500, content_type = ''text/html'', body = []\<rparr>)
        ''https://c.tile.openstreetmap.org/12/1/1.png''
        \<lparr>caches = [(''leeward-point-cache-v11'', [])],
         fetched = [''https://c.tile.openstreetmap.org/12/1/1.png'']\<rparr>)
      = Inr \<lparr>status = 500, content_type = ''text/html'', body = []\<rparr>"
    by (simp add: tile_branch_def fetch_def cache_match_def entries_def
        caches_open_def caches_keys_def CACHE_NAME_def)
  have first: "tile_branch (\<lambda>u. Some \<lparr>status = 404, content_type = ''text/html'', body = [52, 48, 52]\<rparr>)
        ''https://c.tile.openstreetmap.org/12/1/1.png''
        \<lparr>caches = [(''leeward-point-cache-v11'', [])], fetched = []\<rparr>
      = (Inr \<lparr>status = 404, content_type = ''text/html'', body = [52, 48, 52]\<rparr>,
         \<lparr>caches = [(''leeward-point-cache-v11'', [])],
          fetched = [''https://c.tile.openstreetmap.org/12/1/1.png'']\<rparr>)"
    using tile_http_error_passed_through [OF miss net st]
    by (simp add: caches_open_def caches_keys_def CACHE_NAME_def)
  show ?thesis
    using miss st first again by simp
qed

lemma caches_match_single:
  assumes "caches_keys cs = [name]"
  shows "caches_match cs url = cache_match (entries name cs) url"
proof -
  from assms obtain c where "cs = [(name, c)]"
    by (cases cs) (auto simp: caches_keys_def)
  then show ?thesis
    by (simp add: entries_def split: option.splits)
qed

lemma caches_match_None_iff:
  "caches_match cs url = None \<longleftrightarrow> list_all (\<lambda>e. cache_match (snd e) url = None) cs"
  by (induction cs) (auto split: option.splits)

text \<open>
  C8, as stated, fails when a cache generation other than the current one exists: the
  lookup of the other branch is \<^verbatim>\<open>caches.match\<close>, over every cache of the origin, and not
  a lookup in the current store. While the next version installs, its store exists beside
  the current one; with \<^verbatim>\<open>/data.json\<close> in the store of version 12 and not in the current
  store, the request is a miss of the current store, but it is answered with the response
  stored by version 12 and the network is not consulted.
\<close>

theorem other_branch_other_generation_counterexample:
  "cache_match (entries CACHE_NAME
       [(''leeward-point-cache-v11'', []),
        (''leeward-point-cache-v12'',
          [(''/data.json'', \<lparr>status = 200, content_type = ''application/json'', body = [123, 125]\<rparr>)])])
       ''/data.json'' = None
   \<and> other_branch
        (\<lambda>u. Some \<lparr>status = 200, content_type = ''application/json'', body = [91, 93]\<rparr>)
        ''/data.json''
        \<lparr>caches = [(''leeward-point-cache-v11'', []),
           (''leeward-point-cache-v12'',
            [(''/data.json'', \<lparr>status = 200, content_type = ''application/json'', body = [123, 125]\<rparr>)])],
         fetched = []\<rparr>
      = (Inr \<lparr>status = 200, content_type = ''application/json'', body = [123, 125]\<rparr>,
         \<lparr>caches = [(''leeward-point-cache-v11'', []),
           (''leeward-point-cache-v12'',
            [(''/data.json'', \<lparr>status = 200, content_type = ''application/json'', body = [123, 125]\<rparr>)])],
          fetched = []\<rparr>)"
  by (simp add: other_branch_def cache_match_def request_key_def entries_def CACHE_NAME_def)

text \<open>
  C8, amended, for the other branch. The request is looked up in every cache of the
  origin, in creation order. When a cache holds its key, the first such response is the
  answer and no network call is made; when no cache holds it, the response of the network
  is returned as it is and nothing is stored, and when the fetch fails the failure is the
  result of the handler. In no case does the handler change a cache. When the current
  store is the only cache, as after activation, the lookup is the lookup in the current
  store.
\<close>

theorem other_request_policy:
  "(\<forall>r. caches_match (caches w) url = Some r \<longrightarrow> other_branch net url w = (Inr r, w))
   \<and> (\<forall>r. caches_match (caches w) url = None \<and> net url = Some r \<longrightarrow>
         other_branch net url w = (Inr r, w\<lparr>fetched := fetched w @ [url]\<rparr>))
   \<and> (caches_match (caches w) url = None \<and> net url = None \<longrightarrow>
         other_branch net url w = (Inl NetworkError, w\<lparr>fetched := fetched w @ [url]\<rparr>))
   \<and> caches (snd (other_branch net url w)) = caches w
   \<and> (caches_match (caches w) url = None
         \<longleftrightarrow> list_all (\<lambda>e. cache_match (snd e) url = None) (caches w))
   \<and> (caches_keys (caches w) = [CACHE_NAME] \<longrightarrow>
         caches_match (caches w) url = cache_match (entries CACHE_NAME (caches w)) url)"
proof -
  have "caches_match (caches w) url = None
      \<longleftrightarrow> list_all (\<lambda>e. cache_match (snd e) url = None) (caches w)"
    by (rule caches_match_None_iff)
  then show ?thesis
    by (auto simp: other_branch_def fetch_def caches_match_single split: option.splits)
qed

theorem other_request_policy_witness:
  "other_branch (\<lambda>u. None) ''/data.json''
        \<lparr>caches = [(''leeward-point-cache-v11'',
            [(''/data.json'', \<lparr>status = 200, content_type = ''application/json'', body = [123, 125]\<rparr>)])],
         fetched = []\<rparr>
      = (Inr \<lparr>status = 200, content_type = ''application/json'', body = [123, 125]\<rparr>,
         \<lparr>caches = [(''leeward-point-cache-v11'',
            [(''/data.json'', \<lparr>status = 200, content_type = ''application/json'', body = [123, 125]\<rparr>)])],
         fetched = []\<rparr>)
   \<and> other_branch (\<lambda>u. Some \<lparr>status = 200, content_type = ''application/json'', body = [91, 93]\<rparr>)
        ''/data.json'' \<lparr>caches = [(''leeward-point-cache-v11'', [])], fetched = []\<rparr>
      = (Inr \<lparr>status = 200, content_type = ''application/json'', body = [91, 93]\<rparr>,
         \<lparr>caches = [(''leeward-point-cache-v11'', [])], fetched = [''/data.json'']\<rparr>)
   \<and> other_branch (\<lambda>u. None) ''/data.json''
        \<lparr>caches = [(''leeward-point-cache-v11'', [])], fetched = []\<rparr>
      = (Inl NetworkError,
         \<lparr>caches = [(''leeward-point-cache-v11'', [])], fetched = [''/data.json'']\<rparr>)
   \<and> caches_keys [(''leeward-point-cache-v11'', [] :: cache)] = [CACHE_NAME]"
  using
      other_request_policy
        [of "\<lparr>caches = [(''leeward-point-cache-v11'',
            [(''/data.json'', \<lparr>status = 200, content_type = ''application/json'', body = [123, 125]\<rparr>)])],
         fetched = []\<rparr>" "''/data.json''" "\<lambda>u. None"]
      other_request_policy
        [of "\<lparr>caches = [(''leeward-point-cache-v11'', [])], fetched = []\<rparr>" "''/data.json''"
          "\<lambda>u. Some \<lparr>status = 200, content_type = ''application/json'', body = [91, 93]\<rparr>"]
      other_request_policy
        [of "\<lparr>caches = [(''leeward-point-cache-v11'', [])], fetched = []\<rparr>" "''/data.json''"
          "\<lambda>u. None"]
  by (simp add: cache_match_def request_key_def caches_keys_def CACHE_NAME_def)

subsection \<open>The fallback image\<close>

lemma atob_fallback:
  "atob FALLBACK_BASE64 =
     Some [137, 80, 78, 71, 13, 10, 26, 10, 0, 0, 0, 13, 73, 72, 68, 82, 0, 0, 0, 16, 0,
          0, 0, 16, 8, 6, 0, 0, 0, 31, 243, 255, 97, 0, 0, 0, 49, 73, 68, 65, 84, 120,
          218, 99, 96, 24, 5, 163, 128, 126, 96, 98, 96, 72, 225, 63, 6, 34, 21, 50, 160,
          37, 35, 169, 134, 6, 196, 25, 148, 6, 68, 108, 76, 9, 96, 21, 7, 0, 206, 45, 0,
          80, 1, 97, 8, 208, 14, 12, 182, 103, 0, 0, 0, 0, 73, 69, 78, 68, 174, 66, 96,
          130]"
  by (simp add: FALLBACK_BASE64_def atob_def strip_padding_def ascii_whitespace_def
      base64_value_def base64_alphabet_def Let_def)

lemma blob_fallback:
  "blob_of_string
         [137, 80, 78, 71, 13, 10, 26, 10, 0, 0, 0, 13, 73, 72, 68, 82, 0, 0, 0, 16, 0,
          0, 0, 16, 8, 6, 0, 0, 0, 31, 243, 255, 97, 0, 0, 0, 49, 73, 68, 65, 84, 120,
          218, 99, 96, 24, 5, 163, 128, 126, 96, 98, 96, 72, 225, 63, 6, 34, 21, 50, 160,
          37, 35, 169, 134, 6, 196, 25, 148, 6, 68, 108, 76, 9, 96, 21, 7, 0, 206, 45, 0,
          80, 1, 97, 8, 208, 14, 12, 182, 103, 0, 0, 0, 0, 73, 69, 78, 68, 174, 66, 96,
          130] =
         [194, 137, 80, 78, 71, 13, 10, 26, 10, 0, 0, 0, 13, 73, 72, 68, 82, 0, 0, 0, 16,
          0, 0, 0, 16, 8, 6, 0, 0, 0, 31, 195, 179, 195, 191, 97, 0, 0, 0, 49, 73, 68,
          65, 84, 120, 195, 154, 99, 96, 24, 5, 194, 163, 194, 128, 126, 96, 98, 96, 72,
          195, 161, 63, 6, 34, 21, 50, 194, 160, 37, 35, 194, 169, 194, 134, 6, 195, 132,
          25, 194, 148, 6, 68, 108, 76, 9, 96, 21, 7, 0, 195, 142, 45, 0, 80, 1, 97, 8,
          195, 144, 14, 12, 194, 182, 103, 0, 0, 0, 0, 73, 69, 78, 68, 194, 174, 66, 96,
          194, 130]"
  by (simp add: blob_of_string_def utf8_encode_unit_def)

lemma fallback_response_value:
  "fallback_response =
     Inr \<lparr>status = 200, content_type = ''image/png'', body =
         [194, 137, 80, 78, 71, 13, 10, 26, 10, 0, 0, 0, 13, 73, 72, 68, 82, 0, 0, 0, 16,
          0, 0, 0, 16, 8, 6, 0, 0, 0, 31, 195, 179, 195, 191, 97, 0, 0, 0, 49, 73, 68,
          65, 84, 120, 195, 154, 99, 96, 24, 5, 194, 163, 194, 128, 126, 96, 98, 96, 72,
          195, 161, 63, 6, 34, 21, 50, 194, 160, 37, 35, 194, 169, 194, 134, 6, 195, 132,
          25, 194, 148, 6, 68, 108, 76, 9, 96, 21, 7, 0, 195, 142, 45, 0, 80, 1, 97, 8,
          195, 144, 14, 12, 194, 182, 103, 0, 0, 0, 0, 73, 69, 78, 68, 194, 174, 66, 96,
          194, 130]\<rparr>"
  by (simp only: fallback_response_def atob_fallback blob_fallback option.case)

text \<open>
  When the fetch of an uncached tile fails, the tile branch does not reject: it answers
  with the fallback response, whose content type is \<^verbatim>\<open>image/png\<close>.
\<close>

lemma tile_fetch_failure_recovered:
  assumes "cache_match (entries CACHE_NAME (caches w)) url = None"
    and "net url = None"
  shows "fst (tile_branch net url w) = fallback_response"
    and "\<exists>r. fst (tile_branch net url w) = Inr r \<and> content_type r = ''image/png''"
  using assms
  by (simp_all add: tile_branch_miss fallback_response_value)

text \<open>
  C6 does not hold of the body. With no cache and a failing network, the tile branch
  answers the request for a tile with status 200 and content type \<^verbatim>\<open>image/png\<close>, but the
  body is the UTF-8 encoding of the binary string that \<^verbatim>\<open>atob\<close> returns: 119 bytes that
  begin with \<open>194, 137\<close>, where the decoded image has 102 bytes and begins with \<open>137\<close>.
  The body differs from the embedded image.
\<close>

theorem fallback_body_differs_from_image:
  "atob FALLBACK_BASE64 =
     Some [137, 80, 78, 71, 13, 10, 26, 10, 0, 0, 0, 13, 73, 72, 68, 82, 0, 0, 0, 16, 0,
          0, 0, 16, 8, 6, 0, 0, 0, 31, 243, 255, 97, 0, 0, 0, 49, 73, 68, 65, 84, 120,
          218, 99, 96, 24, 5, 163, 128, 126, 96, 98, 96, 72, 225, 63, 6, 34, 21, 50, 160,
          37, 35, 169, 134, 6, 196, 25, 148, 6, 68, 108, 76, 9, 96, 21, 7, 0, 206, 45, 0,
          80, 1, 97, 8, 208, 14, 12, 182, 103, 0, 0, 0, 0, 73, 69, 78, 68, 174, 66, 96,
          130]
   \<and> fst (tile_branch (\<lambda>u. None) ''https://a.tile.openstreetmap.org/12/1100/1700.png''
          \<lparr>caches = [], fetched = []\<rparr>) =
     Inr \<lparr>status = 200, content_type = ''image/png'', body =
         [194, 137, 80, 78, 71, 13, 10, 26, 10, 0, 0, 0, 13, 73, 72, 68, 82, 0, 0, 0, 16,
          0, 0, 0, 16, 8, 6, 0, 0, 0, 31, 195, 179, 195, 191, 97, 0, 0, 0, 49, 73, 68,
          65, 84, 120, 195, 154, 99, 96, 24, 5, 194, 163, 194, 128, 126, 96, 98, 96, 72,
          195, 161, 63, 6, 34, 21, 50, 194, 160, 37, 35, 194, 169, 194, 134, 6, 195, 132,
          25, 194, 148, 6, 68, 108, 76, 9, 96, 21, 7, 0, 195, 142, 45, 0, 80, 1, 97, 8,
          195, 144, 14, 12, 194, 182, 103, 0, 0, 0, 0, 73, 69, 78, 68, 194, 174, 66, 96,
          194, 130]\<rparr>
   \<and> (case fst (tile_branch (\<lambda>u. None) ''https://a.tile.openstreetmap.org/12/1100/1700.png''
          \<lparr>caches = [], fetched = []\<rparr>) of
        Inl e \<Rightarrow> False
      | Inr r \<Rightarrow> Some (body r) \<noteq> atob FALLBACK_BASE64)"
proof -
  have miss: "cache_match (entries CACHE_NAME (caches \<lparr>caches = [], fetched = []\<rparr>))
      ''https://a.tile.openstreetmap.org/12/1100/1700.png'' = None"
    by (simp add: cache_match_def entries_def)
  have "fst (tile_branch (\<lambda>u. None) ''https://a.tile.openstreetmap.org/12/1100/1700.png''
          \<lparr>caches = [], fetched = []\<rparr>) = fallback_response"
    using miss by (simp add: tile_branch_miss)
  then show ?thesis
    by (simp add: fallback_response_value atob_fallback)
qed

subsection \<open>Installation\<close>

lemma keys_set_entries: "caches_keys (set_entries name c cs) = caches_keys cs"
  by (induction cs) (simp_all add: caches_keys_def set_entries_def)

lemma entries_set_entries:
  "name \<in> set (caches_keys cs) \<Longrightarrow> entries name (set_entries name c cs) = c"
  by (induction cs) (auto simp: caches_keys_def set_entries_def entries_def)

lemma keys_caches_open: "name \<in> set (caches_keys (caches_open name cs))"
  by (simp add: caches_open_def caches_keys_def)

lemma fetch_addable_resolves: "fetch_addable net url \<Longrightarrow> net url \<noteq> None"
  by (auto simp: fetch_addable_def split: option.splits)

lemma cache_addAll_accepts:
  assumes "list_all (fetch_addable net) urls" and "distinct (map request_key urls)"
  shows "cache_addAll net name urls w =
     (Inr (), \<lparr>caches = set_entries name
                  (fold (put_fetched net) urls (entries name (caches w))) (caches w),
               fetched = fetched w @ urls\<rparr>)"
proof -
  have "list_all (\<lambda>url. net url \<noteq> None) urls"
    using assms(1) by (auto simp: list_all_iff dest: fetch_addable_resolves)
  with assms show ?thesis
    by (simp add: cache_addAll_def Let_def)
qed

lemma cache_addAll_rejects:
  assumes "\<not> (list_all (fetch_addable net) urls \<and> distinct (map request_key urls))"
  shows "isl (fst (cache_addAll net name urls w))"
    and "snd (cache_addAll net name urls w) = w\<lparr>fetched := fetched w @ urls\<rparr>"
  using assms by (auto simp: cache_addAll_def Let_def)

lemma add_tile_keys: "caches_keys (caches (add_tile net url w)) = caches_keys (caches w)"
  by (simp add: add_tile_def cache_add_def fetch_def keys_set_entries split: option.splits)

lemma add_tile_entries:
  assumes "CACHE_NAME \<in> set (caches_keys (caches w))"
  shows "entries CACHE_NAME (caches (add_tile net url w)) =
     (if fetch_addable net url then put_fetched net url (entries CACHE_NAME (caches w))
      else entries CACHE_NAME (caches w))"
  using assms
  by (simp add: add_tile_def cache_add_def fetch_def fetch_addable_def put_fetched_def
      entries_set_entries split: option.splits)

lemma fold_add_tile_entries:
  assumes "CACHE_NAME \<in> set (caches_keys (caches w))"
  shows "entries CACHE_NAME (caches (fold (add_tile net) urls w)) =
     fold (\<lambda>url c. if fetch_addable net url then put_fetched net url c else c) urls
       (entries CACHE_NAME (caches w))"
  using assms
proof (induction urls arbitrary: w)
  case Nil
  then show ?case by simp
next
  case (Cons url urls)
  have "CACHE_NAME \<in> set (caches_keys (caches (add_tile net url w)))"
    using Cons.prems by (simp add: add_tile_keys)
  from Cons.IH [OF this] show ?case
    by (simp add: add_tile_entries [OF Cons.prems])
qed

lemma request_keys_cache_put:
  "request_keys (cache_put url r c) =
     filter (\<lambda>k. k \<noteq> request_key url) (request_keys c) @ [request_key url]"
  by (simp add: request_keys_def cache_put_def filter_map comp_def)

lemma distinct_cache_put:
  "distinct (request_keys c) \<Longrightarrow> distinct (request_keys (cache_put url r c))"
  by (simp add: request_keys_cache_put)

lemma cache_match_entry:
  assumes "distinct (request_keys c)" and "(u, r) \<in> set c"
  shows "cache_match c u = Some r"
proof -
  have "distinct (map fst (map (\<lambda>e. (request_key (fst e), snd e)) c))"
    using assms(1) by (simp add: request_keys_def comp_def)
  moreover have "(request_key u, r) \<in> set (map (\<lambda>e. (request_key (fst e), snd e)) c)"
    using assms(2) by force
  ultimately show ?thesis
    unfolding cache_match_def by (rule map_of_is_SomeI)
qed

lemma keys_fold_put:
  "set (request_keys (fold (\<lambda>url c. if P url then put_fetched net url c else c) urls c)) =
     set (request_keys c) \<union> request_key ` {url \<in> set urls. P url \<and> net url \<noteq> None}"
proof (induction urls arbitrary: c)
  case Nil
  then show ?case by simp
next
  case (Cons url urls)
  let ?c = "if P url then put_fetched net url c else c"
  have step: "set (request_keys ?c) =
      set (request_keys c) \<union> request_key ` {u. u = url \<and> P url \<and> net url \<noteq> None}"
  proof (cases "P url \<and> net url \<noteq> None")
    case True
    then obtain r where "net url = Some r" by auto
    with True show ?thesis
      by (auto simp: put_fetched_def request_keys_cache_put)
  next
    case False
    then show ?thesis
      by (auto simp: put_fetched_def split: option.splits)
  qed
  have "set (request_keys (fold (\<lambda>url c. if P url then put_fetched net url c else c)
          (url # urls) c)) =
        set (request_keys ?c) \<union> request_key ` {url \<in> set urls. P url \<and> net url \<noteq> None}"
    using Cons.IH [of ?c] by (simp only: fold_simps)
  then show ?case
    unfolding step by auto
qed

lemma distinct_fold_put:
  "distinct (request_keys c) \<Longrightarrow>
     distinct (request_keys (fold (\<lambda>url c. if P url then put_fetched net url c else c) urls c))"
proof (induction urls arbitrary: c)
  case Nil
  then show ?case by simp
next
  case (Cons url urls)
  have "distinct (request_keys (if P url then put_fetched net url c else c))"
    using Cons.prems by (simp add: put_fetched_def distinct_cache_put split: option.splits)
  from Cons.IH [OF this] show ?case by simp
qed

lemma responses_fold_put:
  "list_all (\<lambda>e. net (fst e) = Some (snd e)) c \<Longrightarrow>
     list_all (\<lambda>e. net (fst e) = Some (snd e))
       (fold (\<lambda>url c. if P url then put_fetched net url c else c) urls c)"
proof (induction urls arbitrary: c)
  case Nil
  then show ?case by simp
next
  case (Cons url urls)
  have "list_all (\<lambda>e. net (fst e) = Some (snd e)) (if P url then put_fetched net url c else c)"
    using Cons.prems
    by (auto simp: put_fetched_def cache_put_def list_all_iff split: option.splits)
  from Cons.IH [OF this] show ?case by simp
qed

lemma length_filter_distinct_le:
  assumes "distinct ks" and "set (filter Q ks) \<subseteq> set xs"
  shows "length (filter Q ks) \<le> length xs"
proof -
  have "length (filter Q ks) = card (set (filter Q ks))"
    using assms(1) by (intro distinct_card [symmetric]) simp
  also have "\<dots> \<le> card (set xs)"
    using assms(2) by (intro card_mono) simp_all
  also have "\<dots> \<le> length xs" by (rule card_length)
  finally show ?thesis .
qed

lemma length_filter_distinct_eq:
  assumes "distinct ks" and "distinct xs" and "set xs \<subseteq> set ks"
  shows "length (filter (\<lambda>k. k \<in> set xs) ks) = length xs"
proof -
  have "length (filter (\<lambda>k. k \<in> set xs) ks) = card (set (filter (\<lambda>k. k \<in> set xs) ks))"
    using assms(1) by (intro distinct_card [symmetric]) simp
  also have "set (filter (\<lambda>k. k \<in> set xs) ks) = set xs"
    using assms(3) by auto
  also have "card (set xs) = length xs"
    using assms(2) by (simp add: distinct_card)
  finally show ?thesis .
qed

text \<open>
  The state an installation leaves when the static assets were stored: the entries of the
  current store are the folds of the two phases over the entries it had.
\<close>

lemma install_handler_accepts:
  assumes "list_all (fetch_addable net) static" and "distinct (map request_key static)"
  shows "fst (install_handler net static tileUrls w) = Inr ()"
    and "entries CACHE_NAME (caches (snd (install_handler net static tileUrls w))) =
       fold (\<lambda>url c. if fetch_addable net url then put_fetched net url c else c) tileUrls
         (fold (put_fetched net) static (entries CACHE_NAME (caches w)))"
proof -
  let ?w1 = "w\<lparr>caches := caches_open CACHE_NAME (caches w)\<rparr>"
  let ?w2 = "\<lparr>caches = set_entries CACHE_NAME
                  (fold (put_fetched net) static (entries CACHE_NAME (caches ?w1))) (caches ?w1),
             fetched = fetched ?w1 @ static\<rparr>"
  have run: "install_handler net static tileUrls w = (Inr (), fold (add_tile net) tileUrls ?w2)"
    by (simp add: install_handler_def cache_addAll_accepts [OF assms])
  show "fst (install_handler net static tileUrls w) = Inr ()"
    by (simp add: run)
  have present: "CACHE_NAME \<in> set (caches_keys (caches ?w2))"
    by (simp add: keys_set_entries keys_caches_open)
  have start: "entries CACHE_NAME (caches ?w2) =
      fold (put_fetched net) static (entries CACHE_NAME (caches w))"
    by (simp add: entries_set_entries keys_caches_open entries_caches_open)
  show "entries CACHE_NAME (caches (snd (install_handler net static tileUrls w))) =
       fold (\<lambda>url c. if fetch_addable net url then put_fetched net url c else c) tileUrls
         (fold (put_fetched net) static (entries CACHE_NAME (caches w)))"
    by (simp only: run snd_conv fold_add_tile_entries [OF present] start)
qed

lemma install_handler_rejects:
  assumes "\<not> (list_all (fetch_addable net) static \<and> distinct (map request_key static))"
  shows "isl (fst (install_handler net static tileUrls w))"
    and "entries CACHE_NAME (caches (snd (install_handler net static tileUrls w))) =
       entries CACHE_NAME (caches w)"
proof -
  let ?w1 = "w\<lparr>caches := caches_open CACHE_NAME (caches w)\<rparr>"
  obtain e where e: "fst (cache_addAll net CACHE_NAME static ?w1) = Inl e"
    using cache_addAll_rejects(1) [OF assms, of CACHE_NAME ?w1]
    by (cases "fst (cache_addAll net CACHE_NAME static ?w1)") simp_all
  have run: "install_handler net static tileUrls w =
      (Inl e, ?w1\<lparr>fetched := fetched ?w1 @ static\<rparr>)"
    using e cache_addAll_rejects(2) [OF assms, of CACHE_NAME ?w1]
    by (simp add: install_handler_def split_beta Let_def)
  show "isl (fst (install_handler net static tileUrls w))"
    by (simp add: run)
  show "entries CACHE_NAME (caches (snd (install_handler net static tileUrls w))) =
       entries CACHE_NAME (caches w)"
    by (simp add: run entries_caches_open)
qed

text \<open>
  The handler as the worker registers it runs over the thirty static assets of
  \<open>PRECACHE_URLS\<close>, no two of which match each other. When a static asset cannot be
  fetched and stored it fails, and the tile URLs are not generated; otherwise it runs the
  second phase over the tile URLs that \<open>generateTileUrls\<close> returns.
\<close>

lemma PRECACHE_URLS_distinct:
  "distinct (map request_key PRECACHE_URLS)" and "length PRECACHE_URLS = 30"
  by (simp_all add: PRECACHE_URLS_def request_key_def)

lemma install_fails:
  assumes "\<not> list_all (fetch_addable net) PRECACHE_URLS"
  shows "\<exists>e w'. install m net w = Some (Inl e, w')"
proof -
  let ?w1 = "w\<lparr>caches := caches_open CACHE_NAME (caches w)\<rparr>"
  have "\<not> (list_all (fetch_addable net) PRECACHE_URLS \<and> distinct (map request_key PRECACHE_URLS))"
    using assms by simp
  from cache_addAll_rejects(1) [OF this, of CACHE_NAME ?w1]
  obtain e where "fst (cache_addAll net CACHE_NAME PRECACHE_URLS ?w1) = Inl e"
    by (cases "fst (cache_addAll net CACHE_NAME PRECACHE_URLS ?w1)") simp_all
  then show ?thesis
    by (simp add: install_def split_beta Let_def)
qed

lemma install_runs:
  assumes "list_all (fetch_addable net) PRECACHE_URLS"
  shows "install m net w =
     map_option (\<lambda>tileUrls. install_handler net PRECACHE_URLS tileUrls w)
       (generateTileUrls m OFFLINE_TILE_BOUNDS)"
  by (simp add: install_def install_handler_def Let_def
      cache_addAll_accepts [OF assms PRECACHE_URLS_distinct(1)] split: option.splits)

text \<open>
  C4, as stated, fails when the store of the current version already holds an entry that
  is not in the manifest, such as a tile stored by the fetch handler: \<^verbatim>\<open>caches.open\<close>
  opens the store as it is, and the completed installation over one static asset and no
  tile URL leaves two entries in it.
\<close>

theorem install_over_existing_store_counterexample:
  "fst (install_handler
          (\<lambda>url. Some \<lparr>status = 200, content_type = ''text/html'', body = [60]\<rparr>)
          [''/''] []
          \<lparr>caches = [(''leeward-point-cache-v11'',
              [(''https://a.tile.openstreetmap.org/12/1100/1700.png'',
                \<lparr>status = 200, content_type = ''image/png'', body = [137, 80, 78, 71]\<rparr>)])],
           fetched = []\<rparr>) = Inr ()
   \<and> \<not> length (entries CACHE_NAME (caches (snd (install_handler
          (\<lambda>url. Some \<lparr>status = 200, content_type = ''text/html'', body = [60]\<rparr>)
          [''/''] []
          \<lparr>caches = [(''leeward-point-cache-v11'',
              [(''https://a.tile.openstreetmap.org/12/1100/1700.png'',
                \<lparr>status = 200, content_type = ''image/png'', body = [137, 80, 78, 71]\<rparr>)])],
           fetched = []\<rparr>))))
       \<le> length [''/''] + length ([] :: string list)"
  by (simp add: install_handler_def cache_addAll_def fetch_addable_def addable_def
      put_fetched_def cache_put_def request_key_def set_entries_def entries_def caches_open_def
      caches_keys_def CACHE_NAME_def Let_def)

text \<open>
  C4, amended. For every installation over \<open>N\<close> static assets and \<open>M\<close> tile URLs,
  whatever the store of the current version holds when it starts: if the fetch-and-store
  of a static asset fails, the installation fails and the store keeps the entries it had;
  the installation succeeds exactly when every static asset can be fetched and stored and
  no two of them match each other, so no failure of a tile fails it; and when it succeeds
  the store is the result of storing the static assets and then, one by one, the tile URLs
  whose fetch-and-store succeeded. If moreover the store had no entries (it was absent or
  empty), then after a successful installation its keys, compared without fragments, are
  those of the static assets and of the tile URLs whose fetch-and-store succeeded and
  nothing else, each once: exactly \<open>N\<close> static entries, at most \<open>M\<close> others and at most
  \<open>N + M\<close> in all, every entry holding the response of the network for its URL.
\<close>

theorem install_handler_outcome:
  "((\<exists>url \<in> set static. \<not> fetch_addable net url) \<longrightarrow>
        isl (fst (install_handler net static tileUrls w))
      \<and> entries CACHE_NAME (caches (snd (install_handler net static tileUrls w)))
          = entries CACHE_NAME (caches w))
   \<and> (fst (install_handler net static tileUrls w) = Inr ()
        \<longleftrightarrow> list_all (fetch_addable net) static \<and> distinct (map request_key static))
   \<and> (fst (install_handler net static tileUrls w) = Inr () \<longrightarrow>
        entries CACHE_NAME (caches (snd (install_handler net static tileUrls w))) =
          fold (\<lambda>url c. if fetch_addable net url then put_fetched net url c else c) tileUrls
            (fold (put_fetched net) static (entries CACHE_NAME (caches w))))
   \<and> (entries CACHE_NAME (caches w) = []
        \<and> fst (install_handler net static tileUrls w) = Inr () \<longrightarrow>
          set (request_keys (entries CACHE_NAME
              (caches (snd (install_handler net static tileUrls w)))))
            = request_key ` set static
              \<union> request_key ` {url \<in> set tileUrls. fetch_addable net url}
        \<and> distinct (request_keys (entries CACHE_NAME
              (caches (snd (install_handler net static tileUrls w)))))
        \<and> length (filter (\<lambda>k. k \<in> request_key ` set static) (request_keys (entries CACHE_NAME
              (caches (snd (install_handler net static tileUrls w)))))) = length static
        \<and> length (filter (\<lambda>k. k \<notin> request_key ` set static) (request_keys (entries CACHE_NAME
              (caches (snd (install_handler net static tileUrls w)))))) \<le> length tileUrls
        \<and> length (entries CACHE_NAME (caches (snd (install_handler net static tileUrls w))))
            \<le> length static + length tileUrls
        \<and> (\<forall>e \<in> set (entries CACHE_NAME
              (caches (snd (install_handler net static tileUrls w)))).
             net (fst e) = Some (snd e)
           \<and> cache_match (entries CACHE_NAME
               (caches (snd (install_handler net static tileUrls w)))) (fst e) = Some (snd e)))"
proof -
  let ?result = "install_handler net static tileUrls w"
  let ?store = "entries CACHE_NAME (caches (snd ?result))"
  let ?keys = "request_keys ?store"
  let ?ok = "list_all (fetch_addable net) static \<and> distinct (map request_key static)"
  have fails: "isl (fst ?result) \<and> ?store = entries CACHE_NAME (caches w)" if "\<not> ?ok"
    using install_handler_rejects [OF that, of tileUrls w] by simp
  have a: "(\<exists>url \<in> set static. \<not> fetch_addable net url) \<longrightarrow>
      isl (fst ?result) \<and> ?store = entries CACHE_NAME (caches w)"
    using fails by (auto simp: list_all_iff)
  have b: "fst ?result = Inr () \<longleftrightarrow> ?ok"
  proof
    assume r: "fst ?result = Inr ()"
    show ?ok
    proof (rule ccontr)
      assume "\<not> ?ok"
      from fails [OF this] r show False by simp
    qed
  next
    assume ?ok
    then show "fst ?result = Inr ()"
      using install_handler_accepts(1) by blast
  qed
  have c: "?store =
      fold (\<lambda>url c. if fetch_addable net url then put_fetched net url c else c) tileUrls
        (fold (put_fetched net) static (entries CACHE_NAME (caches w)))"
    if ok: ?ok
    using install_handler_accepts(2) [of net static tileUrls w] ok by simp
  have d: "set ?keys = request_key ` set static
          \<union> request_key ` {url \<in> set tileUrls. fetch_addable net url}
        \<and> distinct ?keys
        \<and> length (filter (\<lambda>k. k \<in> request_key ` set static) ?keys) = length static
        \<and> length (filter (\<lambda>k. k \<notin> request_key ` set static) ?keys) \<le> length tileUrls
        \<and> length ?store \<le> length static + length tileUrls
        \<and> (\<forall>e \<in> set ?store. net (fst e) = Some (snd e)
             \<and> cache_match ?store (fst e) = Some (snd e))"
    if ok: ?ok and empty: "entries CACHE_NAME (caches w) = []"
  proof -
    have all: "\<And>url. url \<in> set static \<Longrightarrow> net url \<noteq> None"
      using ok by (auto simp: list_all_iff dest: fetch_addable_resolves)
    have statics: "fold (put_fetched net) static [] =
        fold (\<lambda>url c. if True then put_fetched net url c else c) static []"
      by simp
    have store: "?store =
        fold (\<lambda>url c. if fetch_addable net url then put_fetched net url c else c) tileUrls
          (fold (\<lambda>url c. if True then put_fetched net url c else c) static [])"
      using c [OF ok] empty by simp
    have keys: "set ?keys = request_key ` set static
        \<union> request_key ` {url \<in> set tileUrls. fetch_addable net url}"
      unfolding store keys_fold_put using all
      by (auto simp: request_keys_def dest: fetch_addable_resolves)
    have dist: "distinct ?keys"
      unfolding store by (intro distinct_fold_put) (simp add: request_keys_def)
    have "length (filter (\<lambda>k. k \<in> set (map request_key static)) ?keys)
        = length (map request_key static)"
      using dist ok keys by (intro length_filter_distinct_eq) auto
    then have n: "length (filter (\<lambda>k. k \<in> request_key ` set static) ?keys) = length static"
      by simp
    have "length (filter (\<lambda>k. k \<notin> request_key ` set static) ?keys)
        \<le> length (map request_key tileUrls)"
      using dist keys by (intro length_filter_distinct_le) auto
    then have m: "length (filter (\<lambda>k. k \<notin> request_key ` set static) ?keys) \<le> length tileUrls"
      by simp
    have "length ?store = length ?keys" by (simp add: request_keys_def)
    also have "\<dots> = length (filter (\<lambda>k. k \<in> request_key ` set static) ?keys)
        + length (filter (\<lambda>k. k \<notin> request_key ` set static) ?keys)"
      by (rule sum_length_filter_compl [symmetric])
    finally have total: "length ?store \<le> length static + length tileUrls"
      using n m by simp
    have "list_all (\<lambda>e. net (fst e) = Some (snd e)) ?store"
      unfolding store by (intro responses_fold_put) simp
    then have resp: "\<And>e. e \<in> set ?store \<Longrightarrow> net (fst e) = Some (snd e)"
      by (simp add: list_all_iff)
    have looked_up: "\<forall>e \<in> set ?store. net (fst e) = Some (snd e)
        \<and> cache_match ?store (fst e) = Some (snd e)"
    proof
      fix e
      assume e: "e \<in> set ?store"
      then have "(fst e, snd e) \<in> set ?store" by simp
      from cache_match_entry [OF dist this] resp [OF e]
      show "net (fst e) = Some (snd e) \<and> cache_match ?store (fst e) = Some (snd e)"
        by simp
    qed
    from keys dist n m total looked_up show ?thesis by blast
  qed
  from a b c d show ?thesis by blast
qed

theorem install_handler_outcome_witness:
  "entries CACHE_NAME (caches \<lparr>caches = [], fetched = []\<rparr>) = []
   \<and> install_handler
        (\<lambda>url. if url = ''https://b.tile.openstreetmap.org/12/1100/1700.png'' then None
              else Some \<lparr>status = 200, content_type = ''text/html'', body = [60]\<rparr>)
        [''/'', ''/index.html'']
        [''https://a.tile.openstreetmap.org/12/1100/1700.png'',
         ''https://b.tile.openstreetmap.org/12/1100/1700.png'']
        \<lparr>caches = [], fetched = []\<rparr>
      = (Inr (),
         \<lparr>caches = [(''leeward-point-cache-v11'',
             [(''/'', \<lparr>status = 200, content_type = ''text/html'', body = [60]\<rparr>),
              (''/index.html'', \<lparr>status = 200, content_type = ''text/html'', body = [60]\<rparr>),
              (''https://a.tile.openstreetmap.org/12/1100/1700.png'',
               \<lparr>status = 200, content_type = ''text/html'', body = [60]\<rparr>)])],
          fetched = [''/'', ''/index.html'',
             ''https://a.tile.openstreetmap.org/12/1100/1700.png'',
             ''https://b.tile.openstreetmap.org/12/1100/1700.png'']\<rparr>)
   \<and> (\<exists>url \<in> set [''/'', ''/index.html''].
         \<not> fetch_addable
            (\<lambda>url. if url = ''/index.html''
                  then Some \<lparr>status = 404, content_type = ''text/html'', body = []\<rparr>
                  else Some \<lparr>status = 200, content_type = ''text/html'', body = [60]\<rparr>) url)
   \<and> install_handler
        (\<lambda>url. if url = ''/index.html''
              then Some \<lparr>status = 404, content_type = ''text/html'', body = []\<rparr>
              else Some \<lparr>status = 200, content_type = ''text/html'', body = [60]\<rparr>)
        [''/'', ''/index.html'']
        [''https://a.tile.openstreetmap.org/12/1100/1700.png'',
         ''https://b.tile.openstreetmap.org/12/1100/1700.png'']
        \<lparr>caches = [], fetched = []\<rparr>
      = (Inl BadStatus,
         \<lparr>caches = [(''leeward-point-cache-v11'', [])], fetched = [''/'', ''/index.html'']\<rparr>)"
proof -
  have fresh: "entries CACHE_NAME (caches \<lparr>caches = [], fetched = []\<rparr>) = []"
    by (simp add: entries_def)
  show ?thesis
    using fresh
      install_handler_outcome
        [of "[''/'', ''/index.html'']"
           "\<lambda>url. if url = ''https://b.tile.openstreetmap.org/12/1100/1700.png'' then None
              else Some \<lparr>status = 200, content_type = ''text/html'', body = [60]\<rparr>"
           "[''https://a.tile.openstreetmap.org/12/1100/1700.png'',
             ''https://b.tile.openstreetmap.org/12/1100/1700.png'']"
           "\<lparr>caches = [], fetched = []\<rparr>"]
      install_handler_outcome
        [of "[''/'', ''/index.html'']"
           "\<lambda>url. if url = ''/index.html''
                  then Some \<lparr>status = 404, content_type = ''text/html'', body = []\<rparr>
                  else Some \<lparr>status = 200, content_type = ''text/html'', body = [60]\<rparr>"
           "[''https://a.tile.openstreetmap.org/12/1100/1700.png'',
             ''https://b.tile.openstreetmap.org/12/1100/1700.png'']"
           "\<lparr>caches = [], fetched = []\<rparr>"]
    by (simp add: install_handler_def cache_addAll_def fetch_addable_def addable_def
        add_tile_def cache_add_def fetch_def put_fetched_def cache_put_def request_key_def
        set_entries_def entries_def caches_open_def caches_keys_def CACHE_NAME_def Let_def)
qed

end
